theory Spec2Isabelle
  imports Complex_Main
begin

section \<open>Python values\<close>

text \<open>
  The service of \<^verbatim>\<open>backend/app/services/excel_service.py\<close> works on cell values of
  Python type \<^verbatim>\<open>Any\<close>. The embedding covers the value domain of the data model: null,
  boolean, integer, floating point, timestamp and string.

  A string of the model is a Python \<^verbatim>\<open>str\<close> whose code points are all below 256, one
  \<^typ>\<open>char\<close> per code point. On these, \<^verbatim>\<open>str.isspace\<close>, \<^verbatim>\<open>str.isdigit\<close> and
  \<^verbatim>\<open>str.lower\<close> are the tables below.
\<close>

datatype py_error = ValueError | KeyError

definition isspace :: "char \<Rightarrow> bool" where
  "isspace c = (of_char c \<in> {9, 10, 11, 12, 13, 28, 29, 30, 31, 32, 133, 160 :: nat})"

definition strip :: "string \<Rightarrow> string" where
  "strip s = rev (dropWhile isspace (rev (dropWhile isspace s)))"

definition isdigit_char :: "char \<Rightarrow> bool" where
  "isdigit_char c = (let n = of_char c :: nat in (48 \<le> n \<and> n \<le> 57) \<or> n = 178 \<or> n = 179 \<or> n = 185)"

text \<open>\<^verbatim>\<open>str.isdigit\<close>: every character is a digit and there is at least one character.\<close>

definition isdigit :: "string \<Rightarrow> bool" where
  "isdigit s = (s \<noteq> [] \<and> list_all isdigit_char s)"

definition isupper_char :: "char \<Rightarrow> bool" where
  "isupper_char c = (let n = of_char c :: nat in (65 \<le> n \<and> n \<le> 90) \<or> (192 \<le> n \<and> n \<le> 222 \<and> n \<noteq> 215))"

text \<open>
  Below 256 every upper-case letter has its lower-case partner 32 code points higher, which
  is the letter with the bit of weight 32 set.
\<close>

fun lower_char :: "char \<Rightarrow> char" where
  "lower_char (Char b0 b1 b2 b3 b4 b5 b6 b7) =
     (if isupper_char (Char b0 b1 b2 b3 b4 b5 b6 b7) then Char b0 b1 b2 b3 b4 True b6 b7
      else Char b0 b1 b2 b3 b4 b5 b6 b7)"

definition lower :: "string \<Rightarrow> string" where
  "lower s = map lower_char s"

definition startswith :: "string \<Rightarrow> string \<Rightarrow> bool" where
  "startswith s p = (take (length p) s = p)"

text \<open>
  A float is not-a-number, an infinity (\<open>Infinity True\<close> the positive one) or a finite number,
  kept as the rational it denotes.
\<close>

datatype pyfloat = NaN | Infinity bool | Fin rat

datatype cell =
    PyNone
  | PyBool bool
  | PyInt int
  | PyFloat pyfloat
  | PyStr string
  | PyTimestamp int

text \<open>
  The library calls the service makes on a string or to print a value are parameters of
  the model: \<open>float_parses s\<close> says that \<^verbatim>\<open>float(s)\<close> returns (raises no ValueError),
  \<open>to_datetime_parses s\<close> that \<^verbatim>\<open>pd.to_datetime(s, errors="coerce")\<close> is neither NaT nor NA,
  \<open>float_str\<close> and \<open>timestamp_str\<close> are \<^verbatim>\<open>str\<close> on a float and on a timestamp.
\<close>

record py_lib =
  float_parses :: "string \<Rightarrow> bool"
  to_datetime_parses :: "string \<Rightarrow> bool"
  float_str :: "pyfloat \<Rightarrow> string"
  timestamp_str :: "int \<Rightarrow> string"

definition isnan :: "pyfloat \<Rightarrow> bool" where
  "isnan f = (f = NaN)"

fun float_is_integer :: "pyfloat \<Rightarrow> bool" where
  "float_is_integer (Fin r) = (of_int \<lfloor>r\<rfloor> = r)"
| "float_is_integer _ = False"

section \<open>Type tags and the compatibility predicates\<close>

definition TYPE_PRIORITY :: "string list" where
  "TYPE_PRIORITY = [''integer'', ''float'', ''boolean'', ''date'', ''string'']"

definition ALLOWED_TYPES :: "string set" where
  "ALLOWED_TYPES = set TYPE_PRIORITY"

fun is_null :: "cell \<Rightarrow> bool" where
  "is_null PyNone = True"
| "is_null (PyStr s) = (strip s = [])"
| "is_null (PyFloat f) = isnan f"
| "is_null _ = False"

fun looks_like_int :: "cell \<Rightarrow> bool" where
  "looks_like_int (PyBool b) = False"
| "looks_like_int (PyInt n) = True"
| "looks_like_int (PyFloat f) = float_is_integer f"
| "looks_like_int (PyStr s) =
     (let v = strip s in if startswith v ''-'' then isdigit (drop 1 v) else isdigit v)"
| "looks_like_int _ = False"

fun looks_like_float :: "py_lib \<Rightarrow> cell \<Rightarrow> bool" where
  "looks_like_float L (PyBool b) = False"
| "looks_like_float L (PyInt n) = True"
| "looks_like_float L (PyFloat f) = True"
| "looks_like_float L (PyStr s) = float_parses L s"
| "looks_like_float L _ = False"

text \<open>\<^verbatim>\<open>value in {0, 1}\<close> on a number: it equals 0 or 1.\<close>

fun looks_like_bool :: "cell \<Rightarrow> bool" where
  "looks_like_bool (PyBool b) = True"
| "looks_like_bool (PyStr s) =
     (lower (strip s) \<in> {''true'', ''false'', ''yes'', ''no'', ''0'', ''1''})"
| "looks_like_bool (PyInt n) = (n = 0 \<or> n = 1)"
| "looks_like_bool (PyFloat f) = (f = Fin 0 \<or> f = Fin 1)"
| "looks_like_bool _ = False"

fun looks_like_date :: "py_lib \<Rightarrow> cell \<Rightarrow> bool" where
  "looks_like_date L (PyTimestamp t) = True"
| "looks_like_date L (PyStr s) = (if strip s = [] then False else to_datetime_parses L s)"
| "looks_like_date L _ = False"

definition is_valid :: "py_lib \<Rightarrow> cell \<Rightarrow> string \<Rightarrow> bool" where
  "is_valid L v expected_type =
     (let expected_type = (if expected_type \<notin> ALLOWED_TYPES then ''string'' else expected_type)
      in if is_null v then True
         else if expected_type = ''string'' then True
         else if expected_type = ''integer'' then looks_like_int v
         else if expected_type = ''float'' then looks_like_float L v
         else if expected_type = ''boolean'' then looks_like_bool v
         else if expected_type = ''date'' then looks_like_date L v
         else True)"

text \<open>
  A fixed instance of the library parameters for the closed examples: it accepts the
  strings \<^verbatim>\<open>1.5\<close> and \<^verbatim>\<open>2024-01-31\<close> and prints nothing.
\<close>

definition example_lib :: py_lib where
  "example_lib = \<lparr> float_parses = (\<lambda>s. s = ''1.5''),
                   to_datetime_parses = (\<lambda>s. s = ''2024-01-31''),
                   float_str = (\<lambda>f. []),
                   timestamp_str = (\<lambda>t. []) \<rparr>"

section \<open>The type classifier\<close>

text \<open>
  \<^verbatim>\<open>scores\<close> is a dict from tag to count; \<^verbatim>\<open>scores[k] += 1\<close> raises KeyError on a
  key the dict lacks.
\<close>

definition incr :: "(string \<rightharpoonup> int) \<Rightarrow> string \<Rightarrow> py_error + (string \<rightharpoonup> int)" where
  "incr scores k = (case scores k of None \<Rightarrow> Inl KeyError | Some n \<Rightarrow> Inr (scores(k \<mapsto> n + 1)))"

text \<open>One round of the loop of \<^verbatim>\<open>detect_column_type\<close>; each \<^verbatim>\<open>continue\<close> ends the round.\<close>

definition score_value :: "py_lib \<Rightarrow> (string \<rightharpoonup> int) \<Rightarrow> cell \<Rightarrow> py_error + (string \<rightharpoonup> int)" where
  "score_value L scores v =
     (if is_null v then Inr scores
      else if looks_like_int v then incr scores ''integer''
      else if looks_like_float L v then incr scores ''float''
      else if looks_like_bool v then incr scores ''boolean''
      else if looks_like_date L v then incr scores ''date''
      else incr scores ''string'')"

fun score_values :: "py_lib \<Rightarrow> (string \<rightharpoonup> int) \<Rightarrow> cell list \<Rightarrow> py_error + (string \<rightharpoonup> int)" where
  "score_values L scores [] = Inr scores"
| "score_values L scores (v # vs) =
     (case score_value L scores v of Inl e \<Rightarrow> Inl e | Inr scores' \<Rightarrow> score_values L scores' vs)"

text \<open>\<^verbatim>\<open>list.index\<close>: the position of the first occurrence, ValueError when there is none.\<close>

fun index_of :: "'a list \<Rightarrow> 'a \<Rightarrow> py_error + nat" where
  "index_of [] x = Inl ValueError"
| "index_of (y # ys) x =
     (if y = x then Inr 0 else (case index_of ys x of Inl e \<Rightarrow> Inl e | Inr i \<Rightarrow> Inr (Suc i)))"

text \<open>The key of \<^verbatim>\<open>max\<close>: the pair \<^verbatim>\<open>(scores[type_name], -TYPE_PRIORITY.index(type_name))\<close>.\<close>

definition sort_key :: "(string \<rightharpoonup> int) \<Rightarrow> string \<Rightarrow> py_error + (int \<times> int)" where
  "sort_key scores type_name =
     (case scores type_name of
        None \<Rightarrow> Inl KeyError
      | Some n \<Rightarrow> (case index_of TYPE_PRIORITY type_name of
                    Inl e \<Rightarrow> Inl e
                  | Inr i \<Rightarrow> Inr (n, - int i)))"

text \<open>Python compares tuples lexicographically.\<close>

definition tuple_gt :: "int \<times> int \<Rightarrow> int \<times> int \<Rightarrow> bool" where
  "tuple_gt a b = (fst a > fst b \<or> (fst a = fst b \<and> snd a > snd b))"

text \<open>
  \<^verbatim>\<open>max(iterable, key=...)\<close> keeps the first item whose key no later key exceeds: an
  item replaces the best one only when its key is strictly greater. On an empty iterable
  it raises ValueError.
\<close>

fun max_loop :: "('a \<Rightarrow> py_error + int \<times> int) \<Rightarrow> 'a \<Rightarrow> int \<times> int \<Rightarrow> 'a list \<Rightarrow> py_error + 'a" where
  "max_loop key best best_key [] = Inr best"
| "max_loop key best best_key (x # xs) =
     (case key x of
        Inl e \<Rightarrow> Inl e
      | Inr k \<Rightarrow> if tuple_gt k best_key then max_loop key x k xs else max_loop key best best_key xs)"

definition py_max :: "('a \<Rightarrow> py_error + int \<times> int) \<Rightarrow> 'a list \<Rightarrow> py_error + 'a" where
  "py_max key xs =
     (case xs of
        [] \<Rightarrow> Inl ValueError
      | x # rest \<Rightarrow> (case key x of Inl e \<Rightarrow> Inl e | Inr k \<Rightarrow> max_loop key x k rest))"

definition initial_scores :: "string \<rightharpoonup> int" where
  "initial_scores = map_of (map (\<lambda>type_name. (type_name, 0)) TYPE_PRIORITY)"

definition detect_column_type :: "py_lib \<Rightarrow> cell list \<Rightarrow> py_error + string" where
  "detect_column_type L vs =
     (case score_values L initial_scores vs of
        Inl e \<Rightarrow> Inl e
      | Inr scores \<Rightarrow>
          (case py_max (sort_key scores) TYPE_PRIORITY of
             Inl e \<Rightarrow> Inl e
           | Inr best_type \<Rightarrow>
               (case scores best_type of
                  None \<Rightarrow> Inl KeyError
                | Some n \<Rightarrow> if n = 0 then Inr ''string'' else Inr best_type)))"

text \<open>
  The classifier as the specification words it: the compatibility predicate of each tag,
  the first tag in priority order that accepts a value, and the count of a tag over the
  non-null values of a column.
\<close>

definition compatible :: "py_lib \<Rightarrow> cell \<Rightarrow> string \<Rightarrow> bool" where
  "compatible L v t =
     (if t = ''integer'' then looks_like_int v
      else if t = ''float'' then looks_like_float L v
      else if t = ''boolean'' then looks_like_bool v
      else if t = ''date'' then looks_like_date L v
      else True)"

definition first_compatible :: "py_lib \<Rightarrow> cell \<Rightarrow> string option" where
  "first_compatible L v = find (compatible L v) TYPE_PRIORITY"

definition tag_count :: "py_lib \<Rightarrow> string \<Rightarrow> cell list \<Rightarrow> int" where
  "tag_count L t vs = int (length (filter (\<lambda>v. \<not> is_null v \<and> first_compatible L v = Some t) vs))"

text \<open>The first tag in priority order whose count no other tag's count exceeds.\<close>

definition highest_count :: "py_lib \<Rightarrow> cell list \<Rightarrow> string option" where
  "highest_count L vs =
     find (\<lambda>t. list_all (\<lambda>u. tag_count L u vs \<le> tag_count L t vs) TYPE_PRIORITY) TYPE_PRIORITY"

section \<open>Rows, cell errors and the validation pipeline\<close>

text \<open>
  A row is the dict \<^verbatim>\<open>{"rowId": ..., "values": {...}}\<close>. \<^verbatim>\<open>dict.get(column)\<close> gives
  \<^verbatim>\<open>None\<close> for a column the dict lacks.
\<close>

record row =
  rowId :: int
  row_values :: "string \<rightharpoonup> cell"

definition dict_get :: "(string \<rightharpoonup> cell) \<Rightarrow> string \<Rightarrow> cell" where
  "dict_get d k = (case d k of None \<Rightarrow> PyNone | Some v \<Rightarrow> v)"

record cell_error =
  err_rowId :: int
  column :: string
  expectedType :: string
  actualValue :: cell
  message :: string

text \<open>\<^verbatim>\<open>str\<close> of a value, as the f-string of the message calls it.\<close>

function str_of_nat :: "nat \<Rightarrow> string" where
  "str_of_nat n =
     (if n < 10 then [''0123456789'' ! n]
      else str_of_nat (n div 10) @ [''0123456789'' ! (n mod 10)])"
  by pat_completeness auto
termination
  by (relation "measure (\<lambda>n. n)") auto

definition str_of_int :: "int \<Rightarrow> string" where
  "str_of_int i = (if i < 0 then CHR ''-'' # str_of_nat (nat (- i)) else str_of_nat (nat i))"

fun py_str :: "py_lib \<Rightarrow> cell \<Rightarrow> string" where
  "py_str L PyNone = ''None''"
| "py_str L (PyBool b) = (if b then ''True'' else ''False'')"
| "py_str L (PyInt n) = str_of_int n"
| "py_str L (PyFloat f) = float_str L f"
| "py_str L (PyStr s) = s"
| "py_str L (PyTimestamp t) = timestamp_str L t"

definition error_message :: "py_lib \<Rightarrow> string \<Rightarrow> cell \<Rightarrow> string" where
  "error_message L expected_type v =
     ''Expected '' @ expected_type @ '', received '' @ [CHR 0x27] @ py_str L v @ [CHR 0x27]"

section \<open>The duplicate detector\<close>

fun coerce_duplicate_value :: "cell \<Rightarrow> cell" where
  "coerce_duplicate_value (PyStr s) = PyStr (lower (strip s))"
| "coerce_duplicate_value (PyFloat f) = (if isnan f then PyNone else PyFloat f)"
| "coerce_duplicate_value v = v"

text \<open>
  A dict finds a key by Python's \<^verbatim>\<open>==\<close> (and the hash, which agrees with it on these
  values): numbers are equal when they denote the same number, whatever their type, so
  \<^verbatim>\<open>1 == 1.0 == True\<close>; not-a-number equals nothing.
\<close>

fun num_value :: "cell \<Rightarrow> pyfloat option" where
  "num_value (PyBool b) = Some (Fin (if b then 1 else 0))"
| "num_value (PyInt n) = Some (Fin (of_int n))"
| "num_value (PyFloat f) = Some f"
| "num_value _ = None"

fun py_eq :: "cell \<Rightarrow> cell \<Rightarrow> bool" where
  "py_eq PyNone PyNone = True"
| "py_eq (PyStr s) (PyStr t) = (s = t)"
| "py_eq (PyTimestamp s) (PyTimestamp t) = (s = t)"
| "py_eq a b =
     (case (num_value a, num_value b) of
        (Some x, Some y) \<Rightarrow> x = y \<and> x \<noteq> NaN
      | _ \<Rightarrow> False)"

text \<open>Tuples are equal when they have the same length and equal components.\<close>

definition tuple_eq :: "cell list \<Rightarrow> cell list \<Rightarrow> bool" where
  "tuple_eq k k' = list_all2 py_eq k k'"

text \<open>
  The dict \<^verbatim>\<open>seen\<close>, in insertion order. \<^verbatim>\<open>seen.setdefault(key, []).append(row_id)\<close>
  appends to the list of the entry with an equal key, and adds an entry at the end when
  there is none.
\<close>

fun setdefault_append :: "(cell list \<times> int list) list \<Rightarrow> cell list \<Rightarrow> int \<Rightarrow> (cell list \<times> int list) list" where
  "setdefault_append [] key row_id = [(key, [row_id])]"
| "setdefault_append ((k, ids) # seen) key row_id =
     (if tuple_eq k key then (k, ids @ [row_id]) # seen
      else (k, ids) # setdefault_append seen key row_id)"

definition row_key :: "string list \<Rightarrow> row \<Rightarrow> cell list" where
  "row_key cols r = map (\<lambda>c. coerce_duplicate_value (dict_get (row_values r) c)) cols"

fun group_rows :: "string list \<Rightarrow> (cell list \<times> int list) list \<Rightarrow> row list \<Rightarrow> (cell list \<times> int list) list" where
  "group_rows cols seen [] = seen"
| "group_rows cols seen (r # rs) =
     group_rows cols (setdefault_append seen (row_key cols r) (rowId r)) rs"

definition identify_duplicates :: "row list \<Rightarrow> string list \<Rightarrow> int list list" where
  "identify_duplicates rs cols =
     filter (\<lambda>group. length group > 1) (map snd (group_rows cols [] rs))"

text \<open>
  The grouping as the specification words it: the first row and the later rows with an
  equal key, in row order, form the first group; the groups of the other rows follow.
\<close>

definition same_key :: "string list \<Rightarrow> row \<Rightarrow> row \<Rightarrow> bool" where
  "same_key cols r r' = tuple_eq (row_key cols r) (row_key cols r')"

function groups_in_order :: "string list \<Rightarrow> row list \<Rightarrow> int list list" where
  "groups_in_order cols [] = []"
| "groups_in_order cols (r # rs) =
     (rowId r # map rowId (filter (same_key cols r) rs))
       # groups_in_order cols (filter (\<lambda>r'. \<not> same_key cols r r') rs)"
  by pat_completeness auto
termination
  by (relation "measure (\<lambda>(cols, rs). length rs)") (auto simp: less_Suc_eq_le)

section \<open>The validation pipeline\<close>

text \<open>
  \<^verbatim>\<open>expected_types\<close> is a dict, kept as the list of its items in key order. The two
  loops of \<^verbatim>\<open>validate_rows\<close> append to \<^verbatim>\<open>errors\<close>.
\<close>

fun validate_row :: "py_lib \<Rightarrow> row \<Rightarrow> (string \<times> string) list \<Rightarrow> cell_error list \<Rightarrow> cell_error list" where
  "validate_row L r [] errs = errs"
| "validate_row L r ((c, expected_type) # items) errs =
     (let v = dict_get (row_values r) c in
      validate_row L r items
        (if \<not> is_valid L v expected_type
         then errs @ [\<lparr> err_rowId = rowId r, column = c, expectedType = expected_type,
                        actualValue = v, message = error_message L expected_type v \<rparr>]
         else errs))"

fun validate_loop :: "py_lib \<Rightarrow> row list \<Rightarrow> (string \<times> string) list \<Rightarrow> cell_error list \<Rightarrow> cell_error list" where
  "validate_loop L [] expected_types errs = errs"
| "validate_loop L (r # rs) expected_types errs =
     validate_loop L rs expected_types (validate_row L r expected_types errs)"

definition validate_rows :: "py_lib \<Rightarrow> row list \<Rightarrow> (string \<times> string) list \<Rightarrow> cell_error list \<times> int list list" where
  "validate_rows L rs expected_types =
     (let errs = validate_loop L rs expected_types [];
          dups = identify_duplicates rs (map fst expected_types)
      in (errs, dups))"

section \<open>Session state, revalidation and row removal\<close>

text \<open>
  A column object is the dict with the keys \<^verbatim>\<open>name\<close>, \<^verbatim>\<open>detectedType\<close>,
  \<^verbatim>\<open>overrideType\<close> and \<^verbatim>\<open>nullable\<close>; the two types may be \<^verbatim>\<open>None\<close>.
\<close>

record column_object =
  name :: string
  detectedType :: "string option"
  overrideType :: "string option"
  nullable :: bool

record session =
  rows :: "row list"
  columns :: "string list"
  detected_types :: "(string \<times> string) list"
  column_info :: "column_object list"
  errors :: "cell_error list"
  duplicate_groups :: "int list list"
  original_filename :: string
  overrides :: "string \<rightharpoonup> string option"
  workbook_bytes :: string
  sheet_name :: string
  sheet_names :: "string list"

record payload =
  payload_columns :: "column_object list"
  payload_rows :: "row list"
  payload_errors :: "cell_error list"
  duplicateGroups :: "int list list"
  sheetName :: string
  sheetNames :: "string list"

definition normalize_type :: "string option \<Rightarrow> string option" where
  "normalize_type v =
     (case v of
        None \<Rightarrow> None
      | Some s \<Rightarrow> (let normalized = lower s in
                   if normalized \<in> ALLOWED_TYPES then Some normalized else None))"

text \<open>
  Python's \<^verbatim>\<open>a or b\<close> on optional strings: \<^verbatim>\<open>a\<close> when it is truthy (a non-empty
  string), else \<^verbatim>\<open>b\<close>.
\<close>

definition truthy :: "string option \<Rightarrow> bool" where
  "truthy a = (case a of None \<Rightarrow> False | Some s \<Rightarrow> s \<noteq> [])"

definition py_or :: "string option \<Rightarrow> string option \<Rightarrow> string option" where
  "py_or a b = (if truthy a then a else b)"

text \<open>\<^verbatim>\<open>d.get(k, default)\<close> on a dict of strings kept as the list of its items.\<close>

definition get_default :: "(string \<times> string) list \<Rightarrow> string \<Rightarrow> string \<Rightarrow> string" where
  "get_default d k dflt = (case map_of d k of None \<Rightarrow> dflt | Some v \<Rightarrow> v)"

text \<open>\<^verbatim>\<open>d[k] = v\<close>: the value of an existing key is replaced in place, a new key goes last.\<close>

fun dict_set :: "(string \<times> string) list \<Rightarrow> string \<Rightarrow> string \<Rightarrow> (string \<times> string) list" where
  "dict_set [] k v = [(k, v)]"
| "dict_set ((k', v') # d) k v = (if k' = k then (k, v) # d else (k', v') # dict_set d k v)"

text \<open>The first block of \<^verbatim>\<open>revalidate\<close>: a non-empty column payload replaces the columns.\<close>

definition replace_columns :: "session \<Rightarrow> column_object list option \<Rightarrow> session" where
  "replace_columns s column_info_payload =
     (case column_info_payload of
        None \<Rightarrow> s
      | Some [] \<Rightarrow> s
      | Some cs \<Rightarrow>
          (let info = map (\<lambda>c. \<lparr> name = name c,
                    detectedType = py_or (detectedType c)
                                     (Some (get_default (detected_types s) (name c) ''string'')),
                    overrideType = overrideType c,
                    nullable = nullable c \<rparr>) cs
           in s\<lparr> column_info := info, columns := map name info \<rparr>))"

definition coerce_overrides :: "string list \<Rightarrow> (string \<rightharpoonup> string option) \<Rightarrow> (string \<rightharpoonup> string option)" where
  "coerce_overrides cols ovs =
     (\<lambda>c. case ovs c of
             None \<Rightarrow> None
           | Some v \<Rightarrow> if c \<in> set cols then Some (normalize_type v) else None)"

text \<open>
  One round of the loop over \<^verbatim>\<open>session.column_info\<close>: the column object as the round
  leaves it, and the type it stores in \<^verbatim>\<open>expected_types\<close> under the column's name.
  \<^verbatim>\<open>coerced_overrides.get(column_name)\<close> is \<^verbatim>\<open>None\<close> for a missing key and for a key
  whose value is \<^verbatim>\<open>None\<close>.
\<close>

definition resolve_column :: "(string \<rightharpoonup> string option) \<Rightarrow> (string \<times> string) list \<Rightarrow> column_object \<Rightarrow> column_object \<times> string" where
  "resolve_column coerced dts col =
     (let column_name = name col;
          override_type = py_or (case coerced column_name of None \<Rightarrow> None | Some v \<Rightarrow> v)
                                (overrideType col);
          col' = (if truthy override_type then col\<lparr> overrideType := override_type \<rparr> else col);
          detected_type = py_or (detectedType col') (Some (get_default dts column_name ''string''));
          expected = py_or (py_or override_type detected_type) (Some ''string'')
      in (col', case expected of None \<Rightarrow> ''string'' | Some t \<Rightarrow> t))"

fun resolve_columns :: "(string \<rightharpoonup> string option) \<Rightarrow> (string \<times> string) list \<Rightarrow> column_object list \<Rightarrow> (string \<times> string) list \<Rightarrow> column_object list \<times> (string \<times> string) list" where
  "resolve_columns coerced dts [] expected_types = ([], expected_types)"
| "resolve_columns coerced dts (col # cols) expected_types =
     (let (col', t) = resolve_column coerced dts col;
          (cols', expected_types') =
             resolve_columns coerced dts cols (dict_set expected_types (name col) t)
      in (col' # cols', expected_types'))"

definition revalidate :: "py_lib \<Rightarrow> session \<Rightarrow> row list \<Rightarrow> (string \<rightharpoonup> string option) \<Rightarrow> column_object list option \<Rightarrow> session \<times> payload" where
  "revalidate L s rs ovs column_info_payload =
     (let s1 = replace_columns s column_info_payload;
          coerced_overrides = coerce_overrides (columns s1) ovs;
          (info, expected_types) =
             resolve_columns coerced_overrides (detected_types s1) (column_info s1) [];
          (errs, dups) = validate_rows L rs expected_types;
          s2 = s1\<lparr> column_info := info, rows := rs, overrides := coerced_overrides,
                   errors := errs, duplicate_groups := dups, detected_types := expected_types \<rparr>
      in (s2, \<lparr> payload_columns = info, payload_rows = rs, payload_errors = errs,
                duplicateGroups = dups, sheetName = sheet_name s2, sheetNames = sheet_names s2 \<rparr>))"

text \<open>
  \<^verbatim>\<open>remove_rows\<close> keeps the rows whose identifier is not in the removal set and numbers
  them from 0 with \<^verbatim>\<open>enumerate\<close>.
\<close>

definition remove_rows :: "session \<Rightarrow> int list \<Rightarrow> session \<times> row list" where
  "remove_rows s row_ids =
     (let removal_set = set row_ids;
          filtered_rows = filter (\<lambda>r. rowId r \<notin> removal_set) (rows s);
          renumbered = map (\<lambda>(idx, r). r\<lparr> rowId := int idx \<rparr>) (enumerate 0 filtered_rows)
      in (s\<lparr> rows := renumbered \<rparr>, renumbered))"

text \<open>
  A session for the closed examples, as \<^verbatim>\<open>parse_sheet\<close> builds the columns of a sheet with
  the one column Age and four rows.
\<close>

definition example_session :: session where
  "example_session =
     \<lparr> rows = [\<lparr> rowId = 0, row_values = [''Age'' \<mapsto> PyStr ''abc''] \<rparr>,
               \<lparr> rowId = 1, row_values = [''Age'' \<mapsto> PyStr ''7''] \<rparr>,
               \<lparr> rowId = 2, row_values = [''Age'' \<mapsto> PyStr ''7''] \<rparr>,
               \<lparr> rowId = 3, row_values = [''Age'' \<mapsto> PyStr ''abc''] \<rparr>],
       columns = [''Age''],
       detected_types = [(''Age'', ''integer'')],
       column_info = [\<lparr> name = ''Age'', detectedType = Some ''integer'', overrideType = None,
                        nullable = True \<rparr>],
       errors = [], duplicate_groups = [], original_filename = ''uploaded.xlsx'',
       overrides = Map.empty, workbook_bytes = [], sheet_name = ''Sheet1'',
       sheet_names = [''Sheet1''] \<rparr>"

text \<open>
  The fallback of the effective type as the specification words it: the \<^verbatim>\<open>overrideType\<close>
  already on the column object, then the detected type (of the object, else of the
  session), then "string"; an empty string counts as absent.
\<close>

definition str_or :: "string option \<Rightarrow> string \<Rightarrow> string" where
  "str_or a b = (case a of None \<Rightarrow> b | Some s \<Rightarrow> if s \<noteq> [] then s else b)"

definition fallback_type :: "(string \<times> string) list \<Rightarrow> column_object \<Rightarrow> string" where
  "fallback_type dts col =
     str_or (overrideType col)
       (str_or (detectedType col)
          (str_or (Some (get_default dts (name col) ''string'')) ''string''))"

section \<open>The cell validator\<close>

lemma string_allowed: "''string'' \<in> ALLOWED_TYPES"
  by (simp add: ALLOWED_TYPES_def TYPE_PRIORITY_def)

text \<open>
  C5. \<open>is_valid\<close> is true on every null value (\<open>PyNone\<close>, and every value \<open>is_null\<close>
  accepts), for the expected type "string", and for every expected type outside the five
  tags, which is validated as "string" is.
\<close>

theorem is_valid_null_string_unrecognized:
  "is_valid L PyNone t
   \<and> (is_null v \<longrightarrow> is_valid L v t)
   \<and> is_valid L v ''string''
   \<and> (t \<notin> ALLOWED_TYPES \<longrightarrow> is_valid L v t \<and> is_valid L v t = is_valid L v ''string'')"
  by (simp add: is_valid_def string_allowed)

theorem is_valid_null_string_unrecognized_witness:
  "is_valid example_lib PyNone ''integer''
   \<and> is_null (PyStr ''  '') \<and> is_valid example_lib (PyStr ''  '') ''date''
   \<and> is_valid example_lib (PyStr ''abc'') ''string''
   \<and> ''currency'' \<notin> ALLOWED_TYPES \<and> is_valid example_lib (PyStr ''abc'') ''currency''"
  using is_valid_null_string_unrecognized [of example_lib "''integer''" "PyStr ''  ''"]
        is_valid_null_string_unrecognized [of example_lib "''date''" "PyStr ''  ''"]
        is_valid_null_string_unrecognized [of example_lib "''currency''" "PyStr ''abc''"]
  by (simp add: ALLOWED_TYPES_def TYPE_PRIORITY_def strip_def isspace_def)

section \<open>The validation pipeline: errors and duplicate groups\<close>

lemma validate_row_append:
  "validate_row L r items errs = errs @ concat (map (\<lambda>(c, t).
      if is_valid L (dict_get (row_values r) c) t then []
      else [\<lparr> err_rowId = rowId r, column = c, expectedType = t,
              actualValue = dict_get (row_values r) c,
              message = error_message L t (dict_get (row_values r) c) \<rparr>]) items)"
  by (induction items arbitrary: errs) (auto simp: Let_def)

lemma validate_loop_append:
  "validate_loop L rs et errs = errs @ concat (map (\<lambda>r. validate_row L r et []) rs)"
proof (induction rs arbitrary: errs)
  case Nil
  show ?case by simp
next
  case (Cons r rs)
  have "validate_row L r et errs = errs @ validate_row L r et []"
    by (simp add: validate_row_append [of L r et errs] validate_row_append [of L r et "[]"])
  with Cons show ?case by simp
qed

text \<open>
  C2. The errors of \<open>validate_rows\<close> are, row by row and within a row item by item of the
  expected types, one error for each cell the validator rejects, with the message
  \<^verbatim>\<open>Expected {expectedType}, received '{actualValue}'\<close>; a column the row lacks is
  validated as \<open>PyNone\<close>; the duplicate groups are those of \<open>identify_duplicates\<close> on the
  same rows and the keys of the expected types in their order. On the row
  \<^verbatim>\<open>{rowId: 0, values: {Age: "abc", Name: "Sam"}}\<close> with the types
  \<^verbatim>\<open>{Age: integer, Name: string}\<close> the result is one error, on column Age, and no group.
\<close>

theorem validate_rows_errors_and_duplicates:
  "fst (validate_rows L rs expected_types) =
     concat (map (\<lambda>r. concat (map (\<lambda>(c, t).
        if is_valid L (dict_get (row_values r) c) t then []
        else [\<lparr> err_rowId = rowId r, column = c, expectedType = t,
                actualValue = dict_get (row_values r) c,
                message = ''Expected '' @ t @ '', received '' @ [CHR 0x27]
                            @ py_str L (dict_get (row_values r) c) @ [CHR 0x27] \<rparr>])
        expected_types)) rs)
   \<and> snd (validate_rows L rs expected_types) = identify_duplicates rs (map fst expected_types)
   \<and> (row_values r c = None \<longrightarrow> dict_get (row_values r) c = PyNone)
   \<and> validate_rows L [\<lparr> rowId = 0, row_values = [''Age'' \<mapsto> PyStr ''abc'', ''Name'' \<mapsto> PyStr ''Sam''] \<rparr>]
        [(''Age'', ''integer''), (''Name'', ''string'')]
      = ([\<lparr> err_rowId = 0, column = ''Age'', expectedType = ''integer'', actualValue = PyStr ''abc'',
            message = ''Expected integer, received '' @ [CHR 0x27] @ ''abc'' @ [CHR 0x27] \<rparr>], [])"
proof -
  have a: "fst (validate_rows L rs expected_types) =
     concat (map (\<lambda>r. concat (map (\<lambda>(c, t).
        if is_valid L (dict_get (row_values r) c) t then []
        else [\<lparr> err_rowId = rowId r, column = c, expectedType = t,
                actualValue = dict_get (row_values r) c,
                message = ''Expected '' @ t @ '', received '' @ [CHR 0x27]
                            @ py_str L (dict_get (row_values r) c) @ [CHR 0x27] \<rparr>])
        expected_types)) rs)"
    by (simp add: validate_rows_def validate_loop_append validate_row_append error_message_def
        cong: if_cong)
  have b: "snd (validate_rows L rs expected_types) = identify_duplicates rs (map fst expected_types)"
    by (simp add: validate_rows_def)
  have c: "row_values r c = None \<longrightarrow> dict_get (row_values r) c = PyNone"
    by (simp add: dict_get_def)
  have d: "validate_rows L [\<lparr> rowId = 0, row_values = [''Age'' \<mapsto> PyStr ''abc'', ''Name'' \<mapsto> PyStr ''Sam''] \<rparr>]
        [(''Age'', ''integer''), (''Name'', ''string'')]
      = ([\<lparr> err_rowId = 0, column = ''Age'', expectedType = ''integer'', actualValue = PyStr ''abc'',
            message = ''Expected integer, received '' @ [CHR 0x27] @ ''abc'' @ [CHR 0x27] \<rparr>], [])"
    by (simp add: validate_rows_def is_valid_def ALLOWED_TYPES_def TYPE_PRIORITY_def dict_get_def
        strip_def isspace_def startswith_def isdigit_def isdigit_char_def error_message_def
        identify_duplicates_def row_key_def)
  from a b c d show ?thesis by blast
qed

theorem validate_rows_errors_and_duplicates_witness:
  "map (\<lambda>e. (err_rowId e, column e, actualValue e))
     (fst (validate_rows example_lib
        [\<lparr> rowId = 0, row_values = [''Age'' \<mapsto> PyStr ''abc'', ''Name'' \<mapsto> PyStr ''Sam''] \<rparr>,
         \<lparr> rowId = 1, row_values = [''Name'' \<mapsto> PyStr ''7''] \<rparr>]
        [(''Age'', ''integer''), (''Name'', ''boolean'')]))
     = [(0, ''Age'', PyStr ''abc''), (0, ''Name'', PyStr ''Sam''), (1, ''Name'', PyStr ''7'')]
   \<and> row_values \<lparr> rowId = 1, row_values = [''Name'' \<mapsto> PyStr ''7''] \<rparr> ''Age'' = None
   \<and> dict_get (row_values \<lparr> rowId = 1, row_values = [''Name'' \<mapsto> PyStr ''7''] \<rparr>) ''Age'' = PyNone"
  using validate_rows_errors_and_duplicates [of example_lib
      "[\<lparr> rowId = 0, row_values = [''Age'' \<mapsto> PyStr ''abc'', ''Name'' \<mapsto> PyStr ''Sam''] \<rparr>,
        \<lparr> rowId = 1, row_values = [''Name'' \<mapsto> PyStr ''7''] \<rparr>]"
      "[(''Age'', ''integer''), (''Name'', ''boolean'')]"
      "\<lparr> rowId = 1, row_values = [''Name'' \<mapsto> PyStr ''7''] \<rparr>" "''Age''"]
  by (simp add: is_valid_def ALLOWED_TYPES_def TYPE_PRIORITY_def dict_get_def
      strip_def isspace_def startswith_def isdigit_def isdigit_char_def lower_def isupper_char_def)

lemma group_rows_no_columns:
  "group_rows [] [([], ids)] rs = [([], ids @ map rowId rs)]"
  by (induction rs arbitrary: ids) (simp_all add: row_key_def tuple_eq_def)

lemma identify_duplicates_no_columns:
  "identify_duplicates rs [] = (if 2 \<le> length rs then [map rowId rs] else [])"
proof (cases rs)
  case Nil
  then show ?thesis by (simp add: identify_duplicates_def)
next
  case (Cons r rs')
  then show ?thesis
    by (cases rs') (simp_all add: identify_duplicates_def row_key_def tuple_eq_def group_rows_no_columns)
qed

text \<open>
  C10. With an empty dict of expected types \<open>validate_rows\<close> returns no error; every row
  has the empty tuple as its key, so two or more rows form one duplicate group of all
  the row identifiers in row order, and fewer than two rows form no group.
\<close>

theorem validate_rows_no_columns:
  "validate_rows L rs [] = ([], if 2 \<le> length rs then [map rowId rs] else [])"
  by (simp add: validate_rows_def validate_loop_append identify_duplicates_no_columns)

theorem validate_rows_no_columns_witness:
  "validate_rows example_lib
     [\<lparr> rowId = 0, row_values = [''A'' \<mapsto> PyInt 1] \<rparr>, \<lparr> rowId = 1, row_values = [''A'' \<mapsto> PyStr ''x''] \<rparr>,
      \<lparr> rowId = 2, row_values = Map.empty \<rparr>] [] = ([], [[0, 1, 2]])
   \<and> validate_rows example_lib [\<lparr> rowId = 0, row_values = [''A'' \<mapsto> PyInt 1] \<rparr>] [] = ([], [])"
  using validate_rows_no_columns [of example_lib
      "[\<lparr> rowId = 0, row_values = [''A'' \<mapsto> PyInt 1] \<rparr>, \<lparr> rowId = 1, row_values = [''A'' \<mapsto> PyStr ''x''] \<rparr>,
        \<lparr> rowId = 2, row_values = Map.empty \<rparr>]"]
    validate_rows_no_columns [of example_lib "[\<lparr> rowId = 0, row_values = [''A'' \<mapsto> PyInt 1] \<rparr>]"]
  by simp

section \<open>Row removal\<close>

lemma map_index_enumerate: "map (\<lambda>(i, x). f i) (enumerate n xs) = map f [n..<n + length xs]"
proof -
  have eq: "(\<lambda>(i, x). f i) = f \<circ> fst"
    by (auto simp: fun_eq_iff)
  show ?thesis
    unfolding eq by (simp only: map_map [symmetric] map_fst_enumerate)
qed

lemma map_item_enumerate: "map (\<lambda>(i, x). g x) (enumerate n xs) = map g xs"
proof -
  have eq: "(\<lambda>(i, x). g x) = g \<circ> snd"
    by (auto simp: fun_eq_iff)
  show ?thesis
    unfolding eq by (simp only: map_map [symmetric] map_snd_enumerate)
qed

lemma remove_rows_values:
  "map row_values (snd (remove_rows s ids)) =
     map row_values (filter (\<lambda>r. rowId r \<notin> set ids) (rows s))"
  using map_item_enumerate [of row_values 0 "filter (\<lambda>r. rowId r \<notin> set ids) (rows s)"]
  by (simp add: remove_rows_def Let_def o_def split_def)

lemma remove_rows_ids:
  "map rowId (snd (remove_rows s ids)) =
     map int [0..<length (filter (\<lambda>r. rowId r \<notin> set ids) (rows s))]"
  using map_index_enumerate [of int 0 "filter (\<lambda>r. rowId r \<notin> set ids) (rows s)"]
  by (simp add: remove_rows_def Let_def o_def split_def)

lemma remove_rows_session: "rows (fst (remove_rows s ids)) = snd (remove_rows s ids)"
  by (simp add: remove_rows_def Let_def)

text \<open>
  C7. \<open>remove_rows\<close> returns, and stores in the session, the rows whose identifier is not
  in the removal set, in their order, each with its values, numbered 0, 1, 2, ... in that
  order. Removing the identifier 1 from the rows 0, 1, 2 leaves two rows numbered 0 and 1,
  the second being the old row 2.
\<close>

theorem remove_rows_filters_and_renumbers:
  "map row_values (snd (remove_rows s ids)) =
     map row_values (filter (\<lambda>r. rowId r \<notin> set ids) (rows s))
   \<and> map rowId (snd (remove_rows s ids)) =
       map int [0..<length (filter (\<lambda>r. rowId r \<notin> set ids) (rows s))]
   \<and> rows (fst (remove_rows s ids)) = snd (remove_rows s ids)"
  by (simp only: remove_rows_values remove_rows_ids remove_rows_session)

theorem remove_rows_filters_and_renumbers_witness:
  "map rowId (snd (remove_rows
       \<lparr> rows = [\<lparr> rowId = 0, row_values = [''A'' \<mapsto> PyStr ''a''] \<rparr>,
                 \<lparr> rowId = 1, row_values = [''A'' \<mapsto> PyStr ''b''] \<rparr>,
                 \<lparr> rowId = 2, row_values = [''A'' \<mapsto> PyStr ''c''] \<rparr>],
         columns = [''A''], detected_types = [(''A'', ''string'')],
         column_info = [\<lparr> name = ''A'', detectedType = Some ''string'', overrideType = None,
                          nullable = True \<rparr>],
         errors = [], duplicate_groups = [], original_filename = ''uploaded.xlsx'',
         overrides = Map.empty, workbook_bytes = [], sheet_name = ''Sheet1'',
         sheet_names = [''Sheet1''] \<rparr> [1])) = [0, 1]
   \<and> map row_values (snd (remove_rows
       \<lparr> rows = [\<lparr> rowId = 0, row_values = [''A'' \<mapsto> PyStr ''a''] \<rparr>,
                 \<lparr> rowId = 1, row_values = [''A'' \<mapsto> PyStr ''b''] \<rparr>,
                 \<lparr> rowId = 2, row_values = [''A'' \<mapsto> PyStr ''c''] \<rparr>],
         columns = [''A''], detected_types = [(''A'', ''string'')],
         column_info = [\<lparr> name = ''A'', detectedType = Some ''string'', overrideType = None,
                          nullable = True \<rparr>],
         errors = [], duplicate_groups = [], original_filename = ''uploaded.xlsx'',
         overrides = Map.empty, workbook_bytes = [], sheet_name = ''Sheet1'',
         sheet_names = [''Sheet1''] \<rparr> [1])) = [[''A'' \<mapsto> PyStr ''a''], [''A'' \<mapsto> PyStr ''c'']]"
  using remove_rows_filters_and_renumbers [of
       "\<lparr> rows = [\<lparr> rowId = 0, row_values = [''A'' \<mapsto> PyStr ''a''] \<rparr>,
                 \<lparr> rowId = 1, row_values = [''A'' \<mapsto> PyStr ''b''] \<rparr>,
                 \<lparr> rowId = 2, row_values = [''A'' \<mapsto> PyStr ''c''] \<rparr>],
         columns = [''A''], detected_types = [(''A'', ''string'')],
         column_info = [\<lparr> name = ''A'', detectedType = Some ''string'', overrideType = None,
                          nullable = True \<rparr>],
         errors = [], duplicate_groups = [], original_filename = ''uploaded.xlsx'',
         overrides = Map.empty, workbook_bytes = [], sheet_name = ''Sheet1'',
         sheet_names = [''Sheet1''] \<rparr>" "[1]"]
  by (simp add: upt_conv_Cons)

section \<open>The type classifier: counts and the best tag\<close>

lemma first_compatible_cases:
  "first_compatible L v =
     Some (if looks_like_int v then ''integer''
           else if looks_like_float L v then ''float''
           else if looks_like_bool v then ''boolean''
           else if looks_like_date L v then ''date''
           else ''string'')"
  by (simp add: first_compatible_def compatible_def TYPE_PRIORITY_def)

lemma first_compatible_in: "first_compatible L v = Some t \<Longrightarrow> t \<in> set TYPE_PRIORITY"
  by (auto simp: first_compatible_cases TYPE_PRIORITY_def split: if_splits)

lemma score_value_incr:
  "\<not> is_null v \<Longrightarrow> first_compatible L v = Some t \<Longrightarrow> score_value L scores v = incr scores t"
  by (auto simp: first_compatible_cases score_value_def split: if_splits)

lemma score_values_counts:
  "set TYPE_PRIORITY \<subseteq> dom scores \<Longrightarrow>
   score_values L scores vs = Inr (\<lambda>t. map_option (\<lambda>n. n + tag_count L t vs) (scores t))"
proof (induction vs arbitrary: scores)
  case Nil
  show ?case by (simp add: tag_count_def fun_eq_iff option.map_ident)
next
  case (Cons v vs)
  show ?case
  proof (cases "is_null v")
    case True
    then have "score_value L scores v = Inr scores"
      by (simp add: score_value_def)
    moreover from True have "tag_count L t (v # vs) = tag_count L t vs" for t
      by (simp add: tag_count_def)
    ultimately show ?thesis
      using Cons.IH [OF Cons.prems] by simp
  next
    case False
    obtain t where t: "first_compatible L v = Some t"
      by (simp add: first_compatible_cases)
    then have "t \<in> set TYPE_PRIORITY"
      by (rule first_compatible_in)
    with Cons.prems obtain n where n: "scores t = Some n"
      by auto
    have step: "score_value L scores v = Inr (scores(t \<mapsto> n + 1))"
      using score_value_incr [OF False t] n by (simp add: incr_def)
    have dom': "set TYPE_PRIORITY \<subseteq> dom (scores(t \<mapsto> n + 1))"
      using Cons.prems by auto
    have cnt: "tag_count L u (v # vs) = tag_count L u vs + (if u = t then 1 else 0)" for u
      using False t by (simp add: tag_count_def)
    have funs: "(\<lambda>u. map_option (\<lambda>m. m + tag_count L u vs) ((scores(t \<mapsto> n + 1)) u))
        = (\<lambda>u. map_option (\<lambda>m. m + tag_count L u (v # vs)) (scores u))"
      using n by (auto simp: fun_eq_iff cnt)
    show ?thesis
      using Cons.IH [OF dom'] step by (simp only: score_values.simps sum.case funs)
  qed
qed

lemma initial_scores_eq:
  "initial_scores = (\<lambda>t. if t \<in> set TYPE_PRIORITY then Some 0 else None)"
  by (auto simp: initial_scores_def TYPE_PRIORITY_def fun_eq_iff)

lemma final_scores:
  "score_values L initial_scores vs =
     Inr (\<lambda>t. if t \<in> set TYPE_PRIORITY then Some (tag_count L t vs) else None)"
proof -
  have "set TYPE_PRIORITY \<subseteq> dom initial_scores"
    by (auto simp: initial_scores_eq)
  from score_values_counts [OF this, of L vs] show ?thesis
    by (simp add: initial_scores_eq fun_eq_iff)
qed

lemma py_max_five:
  fixes f :: "string \<Rightarrow> int"
  shows "py_max (sort_key (\<lambda>t. if t \<in> set TYPE_PRIORITY then Some (f t) else None)) TYPE_PRIORITY
     = (case find (\<lambda>t. list_all (\<lambda>u. f u \<le> f t) TYPE_PRIORITY) TYPE_PRIORITY of
          Some best \<Rightarrow> Inr best | None \<Rightarrow> Inl ValueError)"
proof -
  define a where "a = f ''integer''"
  define b where "b = f ''float''"
  define c where "c = f ''boolean''"
  define d where "d = f ''date''"
  define e where "e = f ''string''"
  show ?thesis
    unfolding py_max_def sort_key_def TYPE_PRIORITY_def
    by (simp add: tuple_gt_def a_def [symmetric] b_def [symmetric] c_def [symmetric]
        d_def [symmetric] e_def [symmetric])
qed


lemma highest_count_props:
  "\<exists>best. highest_count L vs = Some best \<and> best \<in> set TYPE_PRIORITY
     \<and> (\<forall>t\<in>set TYPE_PRIORITY. tag_count L t vs \<le> tag_count L best vs)
     \<and> (\<forall>t\<in>set (takeWhile (\<lambda>t. t \<noteq> best) TYPE_PRIORITY). tag_count L t vs < tag_count L best vs)"
proof -
  define a where "a = tag_count L ''integer'' vs"
  define b where "b = tag_count L ''float'' vs"
  define c where "c = tag_count L ''boolean'' vs"
  define d where "d = tag_count L ''date'' vs"
  define e where "e = tag_count L ''string'' vs"
  show ?thesis
    unfolding highest_count_def TYPE_PRIORITY_def
    apply (simp add: a_def [symmetric] b_def [symmetric] c_def [symmetric]
        d_def [symmetric] e_def [symmetric])
    apply (intro conjI impI)
    apply linarith+
    done
qed

lemma tag_count_nonneg: "0 \<le> tag_count L t vs"
  by (simp add: tag_count_def)

lemma detect_eq:
  "detect_column_type L vs =
     (case highest_count L vs of
        Some best \<Rightarrow> Inr (if tag_count L best vs = 0 then ''string'' else best)
      | None \<Rightarrow> Inl ValueError)"
proof -
  obtain best where best: "highest_count L vs = Some best" "best \<in> set TYPE_PRIORITY"
    using highest_count_props [of L vs] by blast
  have "py_max (sort_key (\<lambda>t. if t \<in> set TYPE_PRIORITY then Some (tag_count L t vs) else None))
          TYPE_PRIORITY = Inr best"
    using best(1) by (simp add: py_max_five highest_count_def)
  then show ?thesis
    using best by (simp add: detect_column_type_def final_scores)
qed


lemma all_null_counts: "list_all is_null vs \<Longrightarrow> tag_count L t vs = 0"
  by (induction vs) (simp_all add: tag_count_def)

text \<open>
  C3. \<open>detect_column_type\<close> returns the tag with the highest count over the non-null
  values: no tag has a higher count, and every tag before it in the priority order
  integer, float, boolean, date, string has a strictly lower one; when all counts are
  zero, as they are for a column of null values only, it returns "string".
\<close>

theorem detect_column_type_highest_count:
  "(\<exists>best. highest_count L vs = Some best \<and> best \<in> set TYPE_PRIORITY
      \<and> (\<forall>t\<in>set TYPE_PRIORITY. tag_count L t vs \<le> tag_count L best vs)
      \<and> (\<forall>t\<in>set (takeWhile (\<lambda>t. t \<noteq> best) TYPE_PRIORITY).
            tag_count L t vs < tag_count L best vs)
      \<and> detect_column_type L vs =
          Inr (if \<forall>t\<in>set TYPE_PRIORITY. tag_count L t vs = 0 then ''string'' else best))
   \<and> (list_all is_null vs \<longrightarrow> detect_column_type L vs = Inr ''string'')"
proof -
  obtain best where best: "highest_count L vs = Some best" "best \<in> set TYPE_PRIORITY"
    "\<forall>t\<in>set TYPE_PRIORITY. tag_count L t vs \<le> tag_count L best vs"
    "\<forall>t\<in>set (takeWhile (\<lambda>t. t \<noteq> best) TYPE_PRIORITY). tag_count L t vs < tag_count L best vs"
    using highest_count_props [of L vs] by blast
  have zero: "(tag_count L best vs = 0) = (\<forall>t\<in>set TYPE_PRIORITY. tag_count L t vs = 0)"
  proof
    assume z: "tag_count L best vs = 0"
    show "\<forall>t\<in>set TYPE_PRIORITY. tag_count L t vs = 0"
    proof
      fix t assume "t \<in> set TYPE_PRIORITY"
      with best(3) z have "tag_count L t vs \<le> 0" by auto
      with tag_count_nonneg [of L t vs] show "tag_count L t vs = 0" by simp
    qed
  next
    assume "\<forall>t\<in>set TYPE_PRIORITY. tag_count L t vs = 0"
    with best(2) show "tag_count L best vs = 0" by blast
  qed
  have res: "detect_column_type L vs =
      Inr (if \<forall>t\<in>set TYPE_PRIORITY. tag_count L t vs = 0 then ''string'' else best)"
    using best(1) by (simp only: detect_eq option.case zero)
  have nulls: "list_all is_null vs \<longrightarrow> detect_column_type L vs = Inr ''string''"
    using res by (simp add: all_null_counts)
  from best res nulls show ?thesis by blast
qed

theorem detect_column_type_highest_count_witness:
  "highest_count example_lib [PyInt 1, PyStr ''x''] = Some ''integer''
   \<and> detect_column_type example_lib [PyInt 1, PyStr ''x''] = Inr ''integer''
   \<and> list_all is_null [PyNone, PyStr ''  '', PyFloat NaN]
   \<and> detect_column_type example_lib [PyNone, PyStr ''  '', PyFloat NaN] = Inr ''string''"
proof -
  have n: "\<not> is_null (PyStr ''x'')"
    by (simp add: strip_def isspace_def)
  have f: "first_compatible example_lib (PyStr ''x'') = Some ''string''"
    by (simp add: first_compatible_cases strip_def isspace_def startswith_def isdigit_def
        isdigit_char_def example_lib_def lower_def isupper_char_def)
  have c: "tag_count example_lib t [PyInt 1, PyStr ''x''] =
      (if t = ''integer'' \<or> t = ''string'' then 1 else 0)" for t
    using n f by (auto simp: tag_count_def first_compatible_cases simp del: is_null.simps(2))
  have h: "highest_count example_lib [PyInt 1, PyStr ''x''] = Some ''integer''"
    by (simp add: highest_count_def c TYPE_PRIORITY_def)
  have nz: "\<not> (\<forall>t\<in>set TYPE_PRIORITY. tag_count example_lib t [PyInt 1, PyStr ''x''] = 0)"
    by (simp add: c TYPE_PRIORITY_def)
  have d: "detect_column_type example_lib [PyInt 1, PyStr ''x''] = Inr ''integer''"
    using detect_column_type_highest_count [of example_lib "[PyInt 1, PyStr ''x'']"] h nz
    by auto
  have nl: "list_all is_null [PyNone, PyStr ''  '', PyFloat NaN]"
    by (simp add: strip_def isspace_def isnan_def)
  have s: "detect_column_type example_lib [PyNone, PyStr ''  '', PyFloat NaN] = Inr ''string''"
    using detect_column_type_highest_count [of example_lib "[PyNone, PyStr ''  '', PyFloat NaN]"] nl
    by blast
  from h d nl s show ?thesis by blast
qed

lemma dropWhile_none: "\<forall>c\<in>set xs. \<not> P c \<Longrightarrow> dropWhile P xs = xs"
  by (cases xs) simp_all

lemma strip_no_space: "\<forall>c\<in>set s. \<not> isspace c \<Longrightarrow> strip s = s"
  by (simp add: strip_def dropWhile_none)

lemma decimal_digit: "ch \<in> set ''0123456789'' \<Longrightarrow> isdigit_char ch \<and> \<not> isspace ch \<and> ch \<noteq> CHR ''-''"
  by (auto simp: isdigit_char_def isspace_def)

lemma digits_int:
  assumes "ds \<noteq> []" "\<forall>ch\<in>set ds. ch \<in> set ''0123456789''"
  shows "looks_like_int (PyStr ds) \<and> looks_like_int (PyStr (CHR ''-'' # ds))"
proof -
  from assms(2) have d: "\<forall>ch\<in>set ds. isdigit_char ch \<and> \<not> isspace ch \<and> ch \<noteq> CHR ''-''"
    using decimal_digit by blast
  then have s1: "strip ds = ds"
    by (intro strip_no_space) blast
  have "\<not> isspace CHR ''-''" by (simp add: isspace_def)
  with d have s2: "strip (CHR ''-'' # ds) = CHR ''-'' # ds"
    by (intro strip_no_space) auto
  from assms(1) d have nm: "\<not> startswith ds ''-''"
    by (cases ds) (auto simp: startswith_def)
  from assms(1) d have dg: "isdigit ds"
    by (auto simp: isdigit_def list_all_iff)
  show ?thesis
    using s1 s2 nm dg by (simp add: startswith_def)
qed


lemma scenario_c:
  "detect_column_type L [PyInt 1, PyStr ''2'', PyStr ''03'', PyNone, PyStr []] = Inr ''integer''"
proof -
  have i: "looks_like_int (PyStr ''2'')" "looks_like_int (PyStr ''03'')" "looks_like_int (PyInt 1)"
    using digits_int [of "''2''"] digits_int [of "''03''"] by simp_all
  have n: "\<not> is_null (PyStr ''2'')" "\<not> is_null (PyStr ''03'')" "is_null (PyStr [])"
    by (simp_all add: strip_def isspace_def)
  have c: "tag_count L t [PyInt 1, PyStr ''2'', PyStr ''03'', PyNone, PyStr []] =
        (if t = ''integer'' then 3 else 0)" for t
    using i n by (simp add: tag_count_def first_compatible_cases del: looks_like_int.simps is_null.simps(2))
  show ?thesis
    by (simp add: detect_eq highest_count_def c TYPE_PRIORITY_def)
qed

text \<open>
  C4. A non-null value adds one to the counter of one tag and leaves the others as they
  are: the first tag in the order integer, float, boolean, date, string whose predicate
  accepts the value. A boolean is neither integer nor float; an integer, and a float with
  zero fractional part, is integer; a string of decimal digits, with or without a minus
  sign before them, is integer. The column \<^verbatim>\<open>[1, "2", "03", None, ""]\<close> is classified
  "integer".
\<close>

theorem score_value_first_compatible:
  "(\<not> is_null v \<and> set TYPE_PRIORITY \<subseteq> dom scores \<longrightarrow>
      (\<exists>t n. first_compatible L v = Some t \<and> t \<in> set TYPE_PRIORITY \<and> scores t = Some n
         \<and> score_value L scores v = Inr (scores(t \<mapsto> n + 1))))
   \<and> first_compatible L v = find (compatible L v) TYPE_PRIORITY
   \<and> \<not> looks_like_int (PyBool b) \<and> \<not> looks_like_float L (PyBool b)
   \<and> looks_like_int (PyInt i)
   \<and> (frac r = 0 \<longrightarrow> looks_like_int (PyFloat (Fin r)))
   \<and> (ds \<noteq> [] \<and> (\<forall>ch\<in>set ds. ch \<in> set ''0123456789'') \<longrightarrow>
        looks_like_int (PyStr ds) \<and> looks_like_int (PyStr (CHR ''-'' # ds)))
   \<and> detect_column_type L [PyInt 1, PyStr ''2'', PyStr ''03'', PyNone, PyStr []] = Inr ''integer''"
proof -
  have a: "\<not> is_null v \<and> set TYPE_PRIORITY \<subseteq> dom scores \<longrightarrow>
      (\<exists>t n. first_compatible L v = Some t \<and> t \<in> set TYPE_PRIORITY \<and> scores t = Some n
         \<and> score_value L scores v = Inr (scores(t \<mapsto> n + 1)))"
  proof
    assume h: "\<not> is_null v \<and> set TYPE_PRIORITY \<subseteq> dom scores"
    obtain t where t: "first_compatible L v = Some t"
      by (simp add: first_compatible_cases)
    then have tin: "t \<in> set TYPE_PRIORITY"
      by (rule first_compatible_in)
    with h obtain n where n: "scores t = Some n"
      by auto
    have "score_value L scores v = Inr (scores(t \<mapsto> n + 1))"
      using score_value_incr [of v L t scores] h t n by (simp add: incr_def)
    with t tin n show "\<exists>t n. first_compatible L v = Some t \<and> t \<in> set TYPE_PRIORITY
        \<and> scores t = Some n \<and> score_value L scores v = Inr (scores(t \<mapsto> n + 1))"
      by blast
  qed
  have b: "first_compatible L v = find (compatible L v) TYPE_PRIORITY"
    by (simp add: first_compatible_def)
  have c: "\<not> looks_like_int (PyBool b) \<and> \<not> looks_like_float L (PyBool b) \<and> looks_like_int (PyInt i)"
    by simp
  have d: "frac r = 0 \<longrightarrow> looks_like_int (PyFloat (Fin r))"
    by (simp add: frac_def)
  have e: "ds \<noteq> [] \<and> (\<forall>ch\<in>set ds. ch \<in> set ''0123456789'') \<longrightarrow>
        looks_like_int (PyStr ds) \<and> looks_like_int (PyStr (CHR ''-'' # ds))"
    using digits_int [of ds] by blast
  from a b c d e scenario_c [of L] show ?thesis by blast
qed

theorem score_value_first_compatible_witness:
  "\<not> is_null (PyStr ''1.5'') \<and> set TYPE_PRIORITY \<subseteq> dom initial_scores
   \<and> first_compatible example_lib (PyStr ''1.5'') = Some ''float''
   \<and> score_value example_lib initial_scores (PyStr ''1.5'') = Inr (initial_scores(''float'' \<mapsto> 1))
   \<and> frac (4 / 2 :: rat) = 0 \<and> looks_like_int (PyFloat (Fin (4 / 2)))
   \<and> looks_like_int (PyStr ''03'') \<and> looks_like_int (PyStr ''-03'')"
  using score_value_first_compatible [of "PyStr ''1.5''" initial_scores example_lib True 0 "4 / 2" "''03''"]
  by (auto simp: initial_scores_eq first_compatible_cases TYPE_PRIORITY_def strip_def isspace_def
      startswith_def isdigit_def isdigit_char_def example_lib_def)

section \<open>The duplicate detector: groups by key\<close>

lemma py_eq_sym: "py_eq a b \<Longrightarrow> py_eq b a"
  by (cases a; cases b) (auto split: option.splits)

lemma py_eq_trans: "py_eq a b \<Longrightarrow> py_eq b c \<Longrightarrow> py_eq a c"
  by (cases a; cases b; cases c) (auto split: option.splits)

lemma py_eq_coerced: "py_eq (coerce_duplicate_value v) (coerce_duplicate_value v)"
  by (cases v) (auto simp: isnan_def)

lemma tuple_eq_sym: "tuple_eq k k' \<Longrightarrow> tuple_eq k' k"
  unfolding tuple_eq_def by (induction k k' rule: list_all2_induct) (auto intro: py_eq_sym)

lemma tuple_eq_trans: "tuple_eq k k' \<Longrightarrow> tuple_eq k' k'' \<Longrightarrow> tuple_eq k k''"
  unfolding tuple_eq_def using py_eq_trans by (rule list_all2_trans)

lemma tuple_eq_row_key: "tuple_eq (row_key cols r) (row_key cols r)"
  by (simp add: tuple_eq_def row_key_def list_all2_same py_eq_coerced)


lemma setdefault_append_new:
  "\<forall>e\<in>set seen. \<not> tuple_eq (fst e) k \<Longrightarrow> setdefault_append seen k i = seen @ [(k, [i])]"
  by (induction seen) auto

lemma setdefault_append_old:
  "\<exists>e\<in>set seen. tuple_eq (fst e) k \<Longrightarrow>
   sorted_wrt (\<lambda>a b. \<not> tuple_eq (fst a) (fst b)) seen \<Longrightarrow>
   setdefault_append seen k i =
     map (\<lambda>e. if tuple_eq (fst e) k then (fst e, snd e @ [i]) else e) seen"
proof (induction seen)
  case Nil
  then show ?case by simp
next
  case (Cons e seen)
  obtain k' ids where e: "e = (k', ids)" by (cases e)
  show ?case
  proof (cases "tuple_eq k' k")
    case True
    have "\<not> tuple_eq (fst x) k" if "x \<in> set seen" for x
    proof
      assume "tuple_eq (fst x) k"
      with True have "tuple_eq k' (fst x)"
        by (meson tuple_eq_sym tuple_eq_trans)
      with Cons.prems(2) that e show False by auto
    qed
    then have "map (\<lambda>e. if tuple_eq (fst e) k then (fst e, snd e @ [i]) else e) seen = seen"
      by (simp add: map_idI)
    with True e show ?thesis by simp
  next
    case False
    with Cons e show ?thesis by auto
  qed
qed


lemma group_rows_groups:
  "sorted_wrt (\<lambda>a b. \<not> tuple_eq (fst a) (fst b)) seen \<Longrightarrow>
   map snd (group_rows cols seen rs) =
     map (\<lambda>e. snd e @ map rowId (filter (\<lambda>r. tuple_eq (fst e) (row_key cols r)) rs)) seen
     @ groups_in_order cols (filter (\<lambda>r. \<forall>e\<in>set seen. \<not> tuple_eq (fst e) (row_key cols r)) rs)"
proof (induction rs arbitrary: seen)
  case Nil
  show ?case by simp
next
  case (Cons r rs)
  define k where "k = row_key cols r"
  define i where "i = rowId r"
  show ?case
  proof (cases "\<exists>e\<in>set seen. tuple_eq (fst e) k")
    case True
    define upd where "upd = (\<lambda>e :: cell list \<times> int list. if tuple_eq (fst e) k then (fst e, snd e @ [i]) else e)"
    have seen': "setdefault_append seen k i = map upd seen"
      unfolding upd_def using True Cons.prems by (rule setdefault_append_old)
    have fst_upd: "fst (upd e) = fst e" for e
      by (simp add: upd_def)
    have sorted': "sorted_wrt (\<lambda>a b. \<not> tuple_eq (fst a) (fst b)) (map upd seen)"
      using Cons.prems by (simp add: sorted_wrt_map fst_upd)
    have keys: "(\<forall>e\<in>set (map upd seen). \<not> tuple_eq (fst e) q) = (\<forall>e\<in>set seen. \<not> tuple_eq (fst e) q)" for q
      by (simp add: fst_upd)
    have ext: "map (\<lambda>e. snd e @ map rowId (filter (\<lambda>r. tuple_eq (fst e) (row_key cols r)) rs)) (map upd seen)
        = map (\<lambda>e. snd e @ map rowId (filter (\<lambda>r. tuple_eq (fst e) (row_key cols r)) (r # rs))) seen"
      by (simp add: upd_def k_def i_def)
    have rest: "filter (\<lambda>r. \<forall>e\<in>set seen. \<not> tuple_eq (fst e) (row_key cols r)) (r # rs)
        = filter (\<lambda>r. \<forall>e\<in>set seen. \<not> tuple_eq (fst e) (row_key cols r)) rs"
      using True by (auto simp: k_def)
    have "map snd (group_rows cols seen (r # rs)) = map snd (group_rows cols (map upd seen) rs)"
      by (simp add: seen' [unfolded k_def i_def])
    also have "\<dots> = map (\<lambda>e. snd e @ map rowId (filter (\<lambda>r. tuple_eq (fst e) (row_key cols r)) rs)) (map upd seen)
        @ groups_in_order cols (filter (\<lambda>r. \<forall>e\<in>set (map upd seen). \<not> tuple_eq (fst e) (row_key cols r)) rs)"
      by (rule Cons.IH [OF sorted'])
    finally show ?thesis
      by (simp only: ext rest keys)
  next
    case False
    then have none: "\<forall>e\<in>set seen. \<not> tuple_eq (fst e) k"
      by blast
    have seen': "setdefault_append seen k i = seen @ [(k, [i])]"
      using none by (rule setdefault_append_new)
    have sorted': "sorted_wrt (\<lambda>a b. \<not> tuple_eq (fst a) (fst b)) (seen @ [(k, [i])])"
      using Cons.prems none by (simp add: sorted_wrt_append)
    have ext: "map (\<lambda>e. snd e @ map rowId (filter (\<lambda>r. tuple_eq (fst e) (row_key cols r)) (r # rs))) seen
        = map (\<lambda>e. snd e @ map rowId (filter (\<lambda>r. tuple_eq (fst e) (row_key cols r)) rs)) seen"
      using none by (simp add: k_def)
    have same: "filter (same_key cols r) (filter (\<lambda>r. \<forall>e\<in>set seen. \<not> tuple_eq (fst e) (row_key cols r)) rs)
        = filter (\<lambda>r. tuple_eq k (row_key cols r)) rs"
    proof -
      have "\<forall>e\<in>set seen. \<not> tuple_eq (fst e) (row_key cols r')" if "tuple_eq k (row_key cols r')" for r'
      proof
        fix e assume e: "e \<in> set seen"
        show "\<not> tuple_eq (fst e) (row_key cols r')"
        proof
          assume "tuple_eq (fst e) (row_key cols r')"
          with that have "tuple_eq (fst e) k"
            by (meson tuple_eq_sym tuple_eq_trans)
          with none e show False by blast
        qed
      qed
      then show ?thesis
        by (auto simp: same_key_def k_def intro: filter_cong)
    qed
    have other: "filter (\<lambda>r'. \<not> same_key cols r r') (filter (\<lambda>r. \<forall>e\<in>set seen. \<not> tuple_eq (fst e) (row_key cols r)) rs)
        = filter (\<lambda>r. \<forall>e\<in>set (seen @ [(k, [i])]). \<not> tuple_eq (fst e) (row_key cols r)) rs"
      by (auto simp: same_key_def k_def intro: filter_cong)
    have rest: "filter (\<lambda>r. \<forall>e\<in>set seen. \<not> tuple_eq (fst e) (row_key cols r)) (r # rs)
        = r # filter (\<lambda>r. \<forall>e\<in>set seen. \<not> tuple_eq (fst e) (row_key cols r)) rs"
      using none by (simp add: k_def)
    have "map snd (group_rows cols seen (r # rs)) = map snd (group_rows cols (seen @ [(k, [i])]) rs)"
      by (simp add: seen' [unfolded k_def i_def] k_def i_def)
    also have "\<dots> = map (\<lambda>e. snd e @ map rowId (filter (\<lambda>r. tuple_eq (fst e) (row_key cols r)) rs)) (seen @ [(k, [i])])
        @ groups_in_order cols (filter (\<lambda>r. \<forall>e\<in>set (seen @ [(k, [i])]). \<not> tuple_eq (fst e) (row_key cols r)) rs)"
      by (rule Cons.IH [OF sorted'])
    finally show ?thesis
      by (simp add: ext rest same other i_def del: filter.simps filter_filter)
  qed
qed

lemma identify_duplicates_groups:
  "identify_duplicates rs cols = filter (\<lambda>g. 2 \<le> length g) (groups_in_order cols rs)"
proof -
  have "map snd (group_rows cols [] rs) = groups_in_order cols rs"
    using group_rows_groups [of "[]" cols rs] by simp
  moreover have "(\<lambda>g :: int list. 1 < length g) = (\<lambda>g. 2 \<le> length g)"
    by auto
  ultimately show ?thesis
    by (simp add: identify_duplicates_def)
qed


text \<open>
  C6. The key of a row is the tuple of its normalized values for the columns, in order:
  a string trimmed and lower-cased, not-a-number replaced by \<open>PyNone\<close>, any other value
  unchanged. Key equality (Python's \<^verbatim>\<open>==\<close>) is an equivalence on rows. The groups are
  those of \<open>groups_in_order\<close>: each row that starts a new key, followed by the later rows
  with an equal key in row order, the groups in the order of their first rows; only the
  groups with two or more identifiers are returned.
\<close>

theorem identify_duplicates_groups_by_key:
  "identify_duplicates rs cols = filter (\<lambda>g. 2 \<le> length g) (groups_in_order cols rs)
   \<and> (\<forall>g\<in>set (identify_duplicates rs cols). 2 \<le> length g)
   \<and> row_key cols r = map (\<lambda>c. coerce_duplicate_value (dict_get (row_values r) c)) cols
   \<and> coerce_duplicate_value (PyStr s) = PyStr (lower (strip s))
   \<and> coerce_duplicate_value (PyFloat NaN) = PyNone
   \<and> ((\<forall>s. v \<noteq> PyStr s) \<and> v \<noteq> PyFloat NaN \<longrightarrow> coerce_duplicate_value v = v)
   \<and> same_key cols r r
   \<and> (same_key cols r r' \<longrightarrow> same_key cols r' r)
   \<and> (same_key cols r r' \<and> same_key cols r' r'' \<longrightarrow> same_key cols r r'')"
proof -
  have a: "identify_duplicates rs cols = filter (\<lambda>g. 2 \<le> length g) (groups_in_order cols rs)"
    by (rule identify_duplicates_groups)
  have b: "\<forall>g\<in>set (identify_duplicates rs cols). 2 \<le> length g"
    by (simp add: a)
  have c: "row_key cols r = map (\<lambda>c. coerce_duplicate_value (dict_get (row_values r) c)) cols"
    by (simp add: row_key_def)
  have d: "coerce_duplicate_value (PyStr s) = PyStr (lower (strip s))
      \<and> coerce_duplicate_value (PyFloat NaN) = PyNone"
    by (simp add: isnan_def)
  have e: "(\<forall>s. v \<noteq> PyStr s) \<and> v \<noteq> PyFloat NaN \<longrightarrow> coerce_duplicate_value v = v"
    by (cases v) (auto simp: isnan_def)
  have f: "same_key cols r r"
    by (simp add: same_key_def tuple_eq_row_key)
  have g: "same_key cols r r' \<longrightarrow> same_key cols r' r"
    by (auto simp: same_key_def intro: tuple_eq_sym)
  have h: "same_key cols r r' \<and> same_key cols r' r'' \<longrightarrow> same_key cols r r''"
    by (auto simp: same_key_def intro: tuple_eq_trans)
  from a b c d e f g h show ?thesis by blast
qed

theorem identify_duplicates_groups_by_key_witness:
  "identify_duplicates
     [\<lparr> rowId = 0, row_values = [''A'' \<mapsto> PyInt 1, ''B'' \<mapsto> PyStr ''x''] \<rparr>,
      \<lparr> rowId = 1, row_values = [''A'' \<mapsto> PyInt 2, ''B'' \<mapsto> PyStr ''y''] \<rparr>,
      \<lparr> rowId = 2, row_values = [''A'' \<mapsto> PyInt 1, ''B'' \<mapsto> PyStr '' X ''] \<rparr>]
     [''A'', ''B''] = [[0, 2]]
   \<and> groups_in_order [''A'', ''B'']
     [\<lparr> rowId = 0, row_values = [''A'' \<mapsto> PyInt 1, ''B'' \<mapsto> PyStr ''x''] \<rparr>,
      \<lparr> rowId = 1, row_values = [''A'' \<mapsto> PyInt 2, ''B'' \<mapsto> PyStr ''y''] \<rparr>,
      \<lparr> rowId = 2, row_values = [''A'' \<mapsto> PyInt 1, ''B'' \<mapsto> PyStr '' X ''] \<rparr>]
     = [[0, 2], [1]]
   \<and> coerce_duplicate_value (PyInt 7) = PyInt 7
   \<and> same_key [''B''] \<lparr> rowId = 0, row_values = [''B'' \<mapsto> PyStr ''x''] \<rparr>
        \<lparr> rowId = 2, row_values = [''B'' \<mapsto> PyStr '' X ''] \<rparr>
   \<and> same_key [''B''] \<lparr> rowId = 2, row_values = [''B'' \<mapsto> PyStr '' X ''] \<rparr>
        \<lparr> rowId = 0, row_values = [''B'' \<mapsto> PyStr ''x''] \<rparr>"
  using identify_duplicates_groups_by_key [of
     "[\<lparr> rowId = 0, row_values = [''A'' \<mapsto> PyInt 1, ''B'' \<mapsto> PyStr ''x''] \<rparr>,
      \<lparr> rowId = 1, row_values = [''A'' \<mapsto> PyInt 2, ''B'' \<mapsto> PyStr ''y''] \<rparr>,
      \<lparr> rowId = 2, row_values = [''A'' \<mapsto> PyInt 1, ''B'' \<mapsto> PyStr '' X ''] \<rparr>]"
     "[''A'', ''B'']"]
    identify_duplicates_groups_by_key [of "[]" "[''B'']"
      "\<lparr> rowId = 0, row_values = [''B'' \<mapsto> PyStr ''x''] \<rparr>" "[]" "PyInt 7"
      "\<lparr> rowId = 2, row_values = [''B'' \<mapsto> PyStr '' X ''] \<rparr>"]
  by (simp add: same_key_def row_key_def tuple_eq_def dict_get_def strip_def isspace_def
      lower_def isupper_char_def)

section \<open>Row removal followed by revalidation\<close>

lemma validate_rows_error_ids:
  "e \<in> set (fst (validate_rows L rs et)) \<Longrightarrow> err_rowId e \<in> rowId ` set rs"
  by (auto simp: validate_rows_def validate_loop_append validate_row_append split: if_splits)

lemma groups_in_order_ids:
  "g \<in> set (groups_in_order cols rs) \<Longrightarrow> set g \<subseteq> rowId ` set rs"
proof (induction cols rs rule: groups_in_order.induct)
  case (1 cols)
  then show ?case by simp
next
  case (2 cols r rs)
  from "2.prems" consider "g = rowId r # map rowId (filter (same_key cols r) rs)"
    | "g \<in> set (groups_in_order cols (filter (\<lambda>r'. \<not> same_key cols r r') rs))"
    by auto
  then show ?case
  proof cases
    case 1
    then show ?thesis by auto
  next
    case 2
    then have "set g \<subseteq> rowId ` set (filter (\<lambda>r'. \<not> same_key cols r r') rs)"
      by (rule "2.IH")
    then show ?thesis by auto
  qed
qed

lemma identify_duplicates_ids:
  "g \<in> set (identify_duplicates rs cols) \<Longrightarrow> set g \<subseteq> rowId ` set rs"
  using groups_in_order_ids [of g cols rs] by (simp add: identify_duplicates_groups)

lemma remove_rows_id_range:
  "r \<in> set (snd (remove_rows s ids)) \<Longrightarrow>
   0 \<le> rowId r \<and> rowId r < int (length (snd (remove_rows s ids)))"
proof -
  assume "r \<in> set (snd (remove_rows s ids))"
  then have "rowId r \<in> set (map rowId (snd (remove_rows s ids)))"
    by simp
  moreover have "length (snd (remove_rows s ids)) = length (filter (\<lambda>r. rowId r \<notin> set ids) (rows s))"
    using arg_cong [OF remove_rows_ids [of s ids], of length] by simp
  ultimately show ?thesis
    by (auto simp: remove_rows_ids)
qed

lemma revalidate_results:
  "\<exists>et. errors (fst (revalidate L s rs ovs p)) = fst (validate_rows L rs et)
     \<and> duplicate_groups (fst (revalidate L s rs ovs p)) = snd (validate_rows L rs et)
     \<and> payload_errors (snd (revalidate L s rs ovs p)) = fst (validate_rows L rs et)
     \<and> duplicateGroups (snd (revalidate L s rs ovs p)) = snd (validate_rows L rs et)
     \<and> rows (fst (revalidate L s rs ovs p)) = rs
     \<and> payload_rows (snd (revalidate L s rs ovs p)) = rs"
  by (auto simp: revalidate_def Let_def split_def)


text \<open>
  C8. After \<open>remove_rows\<close> and a revalidation of the rows it returns, with any overrides
  and any column payload, every error and every member of a duplicate group, in the
  session and in the payload, carries a row identifier from 0 up to, and less than, the
  number of rows that remain.
\<close>

theorem remove_then_revalidate_row_ids:
  "(let rs = snd (remove_rows s ids);
        res = revalidate L (fst (remove_rows s ids)) rs ovs column_info_payload
    in (\<forall>e\<in>set (errors (fst res)). 0 \<le> err_rowId e \<and> err_rowId e < int (length rs))
       \<and> (\<forall>g\<in>set (duplicate_groups (fst res)). \<forall>i\<in>set g. 0 \<le> i \<and> i < int (length rs))
       \<and> payload_errors (snd res) = errors (fst res)
       \<and> duplicateGroups (snd res) = duplicate_groups (fst res)
       \<and> rows (fst res) = rs \<and> payload_rows (snd res) = rs)"
proof -
  define rs where "rs = snd (remove_rows s ids)"
  define res where "res = revalidate L (fst (remove_rows s ids)) rs ovs column_info_payload"
  obtain et where et:
    "errors (fst res) = fst (validate_rows L rs et)"
    "duplicate_groups (fst res) = snd (validate_rows L rs et)"
    "payload_errors (snd res) = fst (validate_rows L rs et)"
    "duplicateGroups (snd res) = snd (validate_rows L rs et)"
    "rows (fst res) = rs" "payload_rows (snd res) = rs"
    unfolding res_def
    using revalidate_results [of L "fst (remove_rows s ids)" rs ovs column_info_payload]
    by blast
  have range: "0 \<le> i \<and> i < int (length rs)" if "i \<in> rowId ` set rs" for i
    using that remove_rows_id_range [of _ s ids] unfolding rs_def by blast
  have a: "\<forall>e\<in>set (errors (fst res)). 0 \<le> err_rowId e \<and> err_rowId e < int (length rs)"
    using validate_rows_error_ids [of _ L rs et] range by (simp add: et(1))
  have b: "\<forall>g\<in>set (duplicate_groups (fst res)). \<forall>i\<in>set g. 0 \<le> i \<and> i < int (length rs)"
  proof (intro ballI)
    fix g i
    assume "g \<in> set (duplicate_groups (fst res))" "i \<in> set g"
    then have "i \<in> rowId ` set rs"
      using identify_duplicates_ids [of g rs "map fst et"]
      by (auto simp: et(2) validate_rows_def)
    then show "0 \<le> i \<and> i < int (length rs)"
      by (rule range)
  qed
  from a b et show ?thesis
    unfolding Let_def rs_def [symmetric] res_def [symmetric] by simp
qed

lemma example_removed:
  "snd (remove_rows example_session [0]) =
     [\<lparr> rowId = 0, row_values = [''Age'' \<mapsto> PyStr ''7''] \<rparr>,
      \<lparr> rowId = 1, row_values = [''Age'' \<mapsto> PyStr ''7''] \<rparr>,
      \<lparr> rowId = 2, row_values = [''Age'' \<mapsto> PyStr ''abc''] \<rparr>]"
  by (simp add: remove_rows_def example_session_def Let_def enumerate_eq_zip upt_conv_Cons)

lemma example_revalidated:
  "map err_rowId (errors (fst (revalidate example_lib (fst (remove_rows example_session [0]))
        (snd (remove_rows example_session [0])) Map.empty None))) = [2]
   \<and> duplicate_groups (fst (revalidate example_lib (fst (remove_rows example_session [0]))
        (snd (remove_rows example_session [0])) Map.empty None)) = [[0, 1]]"
  unfolding example_removed
  by (simp add: revalidate_def remove_rows_def example_session_def Let_def replace_columns_def
      coerce_overrides_def resolve_column_def py_or_def truthy_def get_default_def
      validate_rows_def is_valid_def ALLOWED_TYPES_def TYPE_PRIORITY_def dict_get_def
      strip_def isspace_def startswith_def isdigit_def isdigit_char_def
      identify_duplicates_def row_key_def tuple_eq_def lower_def isupper_char_def)

theorem remove_then_revalidate_row_ids_witness:
  "map err_rowId (errors (fst (revalidate example_lib (fst (remove_rows example_session [0]))
        (snd (remove_rows example_session [0])) Map.empty None))) = [2]
   \<and> duplicate_groups (fst (revalidate example_lib (fst (remove_rows example_session [0]))
        (snd (remove_rows example_session [0])) Map.empty None)) = [[0, 1]]
   \<and> length (snd (remove_rows example_session [0])) = 3
   \<and> payload_errors (snd (revalidate example_lib (fst (remove_rows example_session [0]))
        (snd (remove_rows example_session [0])) Map.empty None))
      = errors (fst (revalidate example_lib (fst (remove_rows example_session [0]))
        (snd (remove_rows example_session [0])) Map.empty None))"
proof -
  have "payload_errors (snd (revalidate example_lib (fst (remove_rows example_session [0]))
        (snd (remove_rows example_session [0])) Map.empty None))
      = errors (fst (revalidate example_lib (fst (remove_rows example_session [0]))
        (snd (remove_rows example_session [0])) Map.empty None))"
    using remove_then_revalidate_row_ids [of example_session "[0]" example_lib Map.empty None]
    unfolding Let_def by blast
  moreover have "length (snd (remove_rows example_session [0])) = 3"
    by (simp add: example_removed)
  ultimately show ?thesis
    using example_revalidated by blast
qed

section \<open>Revalidation: overrides and effective types\<close>

lemma resolve_columns_fold:
  "resolve_columns co dts cols acc =
     (map (\<lambda>c. fst (resolve_column co dts c)) cols,
      fold (\<lambda>c d. dict_set d (name c) (snd (resolve_column co dts c))) cols acc)"
  by (induction cols arbitrary: acc) (simp_all add: split_def Let_def)

lemma map_of_dict_set: "map_of (dict_set d k v) = (map_of d)(k \<mapsto> v)"
  by (induction d) (auto simp: fun_eq_iff)

lemma find_app: "find P (xs @ ys) = (case find P xs of None \<Rightarrow> find P ys | Some x \<Rightarrow> Some x)"
  by (induction xs) simp_all

lemma map_of_fold_dict_set:
  "map_of (fold (\<lambda>c d. dict_set d (name c) (T c)) cols acc) k =
     (case find (\<lambda>c. name c = k) (rev cols) of Some c \<Rightarrow> Some (T c) | None \<Rightarrow> map_of acc k)"
proof (induction cols arbitrary: acc)
  case Nil
  show ?case by simp
next
  case (Cons c cols)
  show ?case
    by (simp add: Cons.IH map_of_dict_set find_app split: option.splits)
qed

lemma allowed_nonempty: "t \<in> ALLOWED_TYPES \<Longrightarrow> t \<noteq> []"
  by (auto simp: ALLOWED_TYPES_def TYPE_PRIORITY_def)

lemma resolve_column_type:
  "co (name col) = Some (normalize_type v) \<Longrightarrow>
   snd (resolve_column co dts col) =
     (case normalize_type v of Some t \<Rightarrow> t | None \<Rightarrow> fallback_type dts col)"
proof (cases "normalize_type v")
  case None
  assume "co (name col) = Some (normalize_type v)"
  with None show ?thesis
    by (auto simp: resolve_column_def py_or_def truthy_def str_or_def fallback_type_def Let_def
        split: option.splits)
next
  case (Some t)
  assume co: "co (name col) = Some (normalize_type v)"
  from Some have "t \<in> ALLOWED_TYPES"
    by (auto simp: normalize_type_def Let_def split: option.splits if_splits)
  then have "t \<noteq> []" by (rule allowed_nonempty)
  with Some co show ?thesis
    by (simp add: resolve_column_def py_or_def truthy_def Let_def)
qed


lemma resolve_column_object:
  "co (name col) = Some (normalize_type v) \<Longrightarrow>
   fst (resolve_column co dts col) =
     col\<lparr> overrideType := (case normalize_type v of Some t \<Rightarrow> Some t | None \<Rightarrow> overrideType col) \<rparr>"
proof (cases "normalize_type v")
  case None
  assume "co (name col) = Some (normalize_type v)"
  with None show ?thesis
    by (simp add: resolve_column_def py_or_def truthy_def Let_def)
next
  case (Some t)
  assume co: "co (name col) = Some (normalize_type v)"
  from Some have "t \<in> ALLOWED_TYPES"
    by (auto simp: normalize_type_def Let_def split: option.splits if_splits)
  then have "t \<noteq> []" by (rule allowed_nonempty)
  with Some co show ?thesis
    by (simp add: resolve_column_def py_or_def truthy_def Let_def)
qed

lemma keys_dict_set_old: "k \<in> fst ` set d \<Longrightarrow> map fst (dict_set d k v) = map fst d"
  by (induction d) force+

lemma keys_dict_set_new: "k \<notin> fst ` set d \<Longrightarrow> map fst (dict_set d k v) = map fst d @ [k]"
  by (induction d) force+

lemma distinct_dict_set: "distinct (map fst d) \<Longrightarrow> distinct (map fst (dict_set d k v))"
  by (cases "k \<in> fst ` set d") (simp_all add: keys_dict_set_old keys_dict_set_new)

lemma distinct_fold_dict_set:
  "distinct (map fst acc) \<Longrightarrow>
   distinct (map fst (fold (\<lambda>c d. dict_set d (name c) (T c)) cols acc))"
  by (induction cols arbitrary: acc) (simp_all add: distinct_dict_set)

lemma validate_rows_error_iff:
  "e \<in> set (fst (validate_rows L rs et)) \<longleftrightarrow>
     (\<exists>r\<in>set rs. \<exists>(c, t)\<in>set et. \<not> is_valid L (dict_get (row_values r) c) t
        \<and> e = \<lparr> err_rowId = rowId r, column = c, expectedType = t,
                 actualValue = dict_get (row_values r) c,
                 message = error_message L t (dict_get (row_values r) c) \<rparr>)"
  by (auto simp: validate_rows_def validate_loop_append validate_row_append split: if_splits)

lemma revalidate_session:
  "fst (revalidate L s rs ovs p) =
     (let s1 = replace_columns s p;
          co = coerce_overrides (columns s1) ovs;
          et = fold (\<lambda>c d. dict_set d (name c) (snd (resolve_column co (detected_types s1) c)))
                 (column_info s1) []
      in s1\<lparr> column_info := map (\<lambda>c. fst (resolve_column co (detected_types s1) c)) (column_info s1),
              rows := rs, overrides := co,
              errors := fst (validate_rows L rs et),
              duplicate_groups := snd (validate_rows L rs et),
              detected_types := et \<rparr>)"
  by (simp add: revalidate_def Let_def split_def resolve_columns_fold)

lemma revalidate_payload:
  "payload_columns (snd (revalidate L s rs ovs p)) = column_info (fst (revalidate L s rs ovs p))
   \<and> payload_errors (snd (revalidate L s rs ovs p)) = errors (fst (revalidate L s rs ovs p))
   \<and> duplicateGroups (snd (revalidate L s rs ovs p)) = duplicate_groups (fst (revalidate L s rs ovs p))"
  by (simp add: revalidate_def Let_def split_def)


text \<open>
  C1. \<open>revalidate\<close> normalizes each supplied override whose column is a column of the
  session: the string is lower-cased and kept when it is one of the five tags, and
  replaced by \<open>None\<close> otherwise. The session's overrides hold these normalized values, so
  the only strings they hold are tags; an unrecognized string is not stored, and its
  column keeps its key in the dict with the value \<open>None\<close>. A recognized tag is written to
  the \<open>overrideType\<close> of every column object with that name, an unrecognized one leaves
  the object as it is. The effective type of the column, stored under its name by the last
  column object with that name, is the recognized tag, and otherwise the \<open>overrideType\<close>
  already on the column object, else its detected type (the \<open>detectedType\<close> of the object,
  else the session's detected type), else "string". The errors and duplicate groups of
  the session and of the payload are those of \<open>validate_rows\<close> on the rows and these
  effective types: the errors on the column are exactly the cells the validator rejects
  for the effective type.
\<close>

theorem revalidate_override_normalized_or_fallback:
  "(let s1 = replace_columns s column_info_payload;
        co = coerce_overrides (columns s1) ovs;
        res = revalidate L s rs ovs column_info_payload;
        s2 = fst res
    in overrides s2 = co
       \<and> errors s2 = fst (validate_rows L rs (detected_types s2))
       \<and> duplicate_groups s2 = snd (validate_rows L rs (detected_types s2))
       \<and> payload_errors (snd res) = errors s2
       \<and> duplicateGroups (snd res) = duplicate_groups s2
       \<and> payload_columns (snd res) = column_info s2
       \<and> distinct (map fst (detected_types s2))
       \<and> length (column_info s2) = length (column_info s1)
       \<and> (\<forall>c' t. overrides s2 c' = Some (Some t) \<longrightarrow> t \<in> ALLOWED_TYPES)
       \<and> (ovs c = Some v \<and> c \<in> set (columns s1) \<longrightarrow>
            overrides s2 c = Some (normalize_type v)
            \<and> (normalize_type v = None \<longrightarrow> overrides s2 c = Some None \<and> c \<in> dom (overrides s2))
            \<and> (\<forall>i<length (column_info s1). name (column_info s1 ! i) = c \<longrightarrow>
                  column_info s2 ! i = (column_info s1 ! i)
                    \<lparr> overrideType := (case normalize_type v of
                                         Some t \<Rightarrow> Some t
                                       | None \<Rightarrow> overrideType (column_info s1 ! i)) \<rparr>)
            \<and> (find (\<lambda>x. name x = c) (rev (column_info s1)) = Some col \<longrightarrow>
                 (let t_eff = (case normalize_type v of
                                 Some t \<Rightarrow> t
                               | None \<Rightarrow> fallback_type (detected_types s1) col)
                  in map_of (detected_types s2) c = Some t_eff
                     \<and> (\<forall>t. (c, t) \<in> set (detected_types s2) \<longrightarrow> t = t_eff)
                     \<and> (\<forall>e\<in>set (errors s2). column e = c \<longrightarrow>
                           expectedType e = t_eff \<and> \<not> is_valid L (actualValue e) t_eff)
                     \<and> (\<forall>r\<in>set rs. \<not> is_valid L (dict_get (row_values r) c) t_eff \<longrightarrow>
                           (\<exists>e\<in>set (errors s2). err_rowId e = rowId r \<and> column e = c
                              \<and> expectedType e = t_eff
                              \<and> actualValue e = dict_get (row_values r) c))))))
   \<and> normalize_type None = None
   \<and> normalize_type (Some x) = (if lower x \<in> ALLOWED_TYPES then Some (lower x) else None)"
proof -
  define s1 where "s1 = replace_columns s column_info_payload"
  define co where "co = coerce_overrides (columns s1) ovs"
  define res where "res = revalidate L s rs ovs column_info_payload"
  define s2 where "s2 = fst res"
  define et where "et = fold (\<lambda>c d. dict_set d (name c) (snd (resolve_column co (detected_types s1) c)))
      (column_info s1) []"
  have s2: "s2 = s1\<lparr> column_info := map (\<lambda>c. fst (resolve_column co (detected_types s1) c)) (column_info s1),
              rows := rs, overrides := co,
              errors := fst (validate_rows L rs et),
              duplicate_groups := snd (validate_rows L rs et),
              detected_types := et \<rparr>"
    unfolding s2_def res_def et_def co_def s1_def
    by (simp add: revalidate_session Let_def)
  have ov: "overrides s2 = co" and dt: "detected_types s2 = et"
    and er: "errors s2 = fst (validate_rows L rs et)"
    and du: "duplicate_groups s2 = snd (validate_rows L rs et)"
    and ci: "column_info s2 = map (\<lambda>c. fst (resolve_column co (detected_types s1) c)) (column_info s1)"
    by (simp_all add: s2)
  have pl: "payload_errors (snd res) = errors s2 \<and> duplicateGroups (snd res) = duplicate_groups s2
      \<and> payload_columns (snd res) = column_info s2"
    unfolding s2_def res_def using revalidate_payload [of L s rs ovs column_info_payload] by simp
  have dist: "distinct (map fst et)"
    unfolding et_def by (rule distinct_fold_dict_set) simp
  have len: "length (column_info s2) = length (column_info s1)"
    by (simp add: ci)
  have tags: "\<forall>c' t. overrides s2 c' = Some (Some t) \<longrightarrow> t \<in> ALLOWED_TYPES"
    by (auto simp: ov co_def coerce_overrides_def normalize_type_def Let_def
        split: option.splits if_splits)
  have main: "ovs c = Some v \<and> c \<in> set (columns s1) \<longrightarrow>
            overrides s2 c = Some (normalize_type v)
            \<and> (normalize_type v = None \<longrightarrow> overrides s2 c = Some None \<and> c \<in> dom (overrides s2))
            \<and> (\<forall>i<length (column_info s1). name (column_info s1 ! i) = c \<longrightarrow>
                  column_info s2 ! i = (column_info s1 ! i)
                    \<lparr> overrideType := (case normalize_type v of
                                         Some t \<Rightarrow> Some t
                                       | None \<Rightarrow> overrideType (column_info s1 ! i)) \<rparr>)
            \<and> (find (\<lambda>x. name x = c) (rev (column_info s1)) = Some col \<longrightarrow>
                 (let t_eff = (case normalize_type v of
                                 Some t \<Rightarrow> t
                               | None \<Rightarrow> fallback_type (detected_types s1) col)
                  in map_of (detected_types s2) c = Some t_eff
                     \<and> (\<forall>t. (c, t) \<in> set (detected_types s2) \<longrightarrow> t = t_eff)
                     \<and> (\<forall>e\<in>set (errors s2). column e = c \<longrightarrow>
                           expectedType e = t_eff \<and> \<not> is_valid L (actualValue e) t_eff)
                     \<and> (\<forall>r\<in>set rs. \<not> is_valid L (dict_get (row_values r) c) t_eff \<longrightarrow>
                           (\<exists>e\<in>set (errors s2). err_rowId e = rowId r \<and> column e = c
                              \<and> expectedType e = t_eff
                              \<and> actualValue e = dict_get (row_values r) c))))"
  proof (intro impI)
    assume h: "ovs c = Some v \<and> c \<in> set (columns s1)"
    then have stored: "overrides s2 c = Some (normalize_type v)"
      by (simp add: ov co_def coerce_overrides_def)
    then have coc: "co c = Some (normalize_type v)"
      by (simp add: ov)
    have none: "normalize_type v = None \<longrightarrow> overrides s2 c = Some None \<and> c \<in> dom (overrides s2)"
      using stored by auto
    have objs: "\<forall>i<length (column_info s1). name (column_info s1 ! i) = c \<longrightarrow>
                  column_info s2 ! i = (column_info s1 ! i)
                    \<lparr> overrideType := (case normalize_type v of
                                         Some t \<Rightarrow> Some t
                                       | None \<Rightarrow> overrideType (column_info s1 ! i)) \<rparr>"
      using coc by (simp add: ci resolve_column_object)
    have eff: "find (\<lambda>x. name x = c) (rev (column_info s1)) = Some col \<longrightarrow>
                 (let t_eff = (case normalize_type v of
                                 Some t \<Rightarrow> t
                               | None \<Rightarrow> fallback_type (detected_types s1) col)
                  in map_of (detected_types s2) c = Some t_eff
                     \<and> (\<forall>t. (c, t) \<in> set (detected_types s2) \<longrightarrow> t = t_eff)
                     \<and> (\<forall>e\<in>set (errors s2). column e = c \<longrightarrow>
                           expectedType e = t_eff \<and> \<not> is_valid L (actualValue e) t_eff)
                     \<and> (\<forall>r\<in>set rs. \<not> is_valid L (dict_get (row_values r) c) t_eff \<longrightarrow>
                           (\<exists>e\<in>set (errors s2). err_rowId e = rowId r \<and> column e = c
                              \<and> expectedType e = t_eff
                              \<and> actualValue e = dict_get (row_values r) c)))"
    proof
      assume f: "find (\<lambda>x. name x = c) (rev (column_info s1)) = Some col"
      define t_eff where "t_eff = (case normalize_type v of
          Some t \<Rightarrow> t | None \<Rightarrow> fallback_type (detected_types s1) col)"
      from f have nm: "name col = c"
        by (auto simp: find_Some_iff)
      with coc have "co (name col) = Some (normalize_type v)"
        by simp
      then have "snd (resolve_column co (detected_types s1) col) = t_eff"
        unfolding t_eff_def by (rule resolve_column_type)
      then have m: "map_of et c = Some t_eff"
        by (simp add: et_def map_of_fold_dict_set f)
      have uniq: "t = t_eff" if "(c, t) \<in> set et" for t
        using that dist m by simp
      have e1: "\<forall>e\<in>set (errors s2). column e = c \<longrightarrow>
          expectedType e = t_eff \<and> \<not> is_valid L (actualValue e) t_eff"
        using uniq by (auto simp: er validate_rows_error_iff)
      have inn: "(c, t_eff) \<in> set et"
        using m by (rule map_of_SomeD)
      have e2: "\<forall>r\<in>set rs. \<not> is_valid L (dict_get (row_values r) c) t_eff \<longrightarrow>
          (\<exists>e\<in>set (errors s2). err_rowId e = rowId r \<and> column e = c
             \<and> expectedType e = t_eff \<and> actualValue e = dict_get (row_values r) c)"
      proof (intro ballI impI)
        fix r assume r: "r \<in> set rs" and bad: "\<not> is_valid L (dict_get (row_values r) c) t_eff"
        let ?e = "\<lparr> err_rowId = rowId r, column = c, expectedType = t_eff,
                 actualValue = dict_get (row_values r) c,
                 message = error_message L t_eff (dict_get (row_values r) c) \<rparr>"
        have "?e \<in> set (errors s2)"
          unfolding er validate_rows_error_iff using r bad inn by blast
        then show "\<exists>e\<in>set (errors s2). err_rowId e = rowId r \<and> column e = c
             \<and> expectedType e = t_eff \<and> actualValue e = dict_get (row_values r) c"
          by (intro bexI [of _ ?e]) simp_all
      qed
      from m uniq e1 e2 show "(let t_eff = (case normalize_type v of
                                 Some t \<Rightarrow> t
                               | None \<Rightarrow> fallback_type (detected_types s1) col)
                  in map_of (detected_types s2) c = Some t_eff
                     \<and> (\<forall>t. (c, t) \<in> set (detected_types s2) \<longrightarrow> t = t_eff)
                     \<and> (\<forall>e\<in>set (errors s2). column e = c \<longrightarrow>
                           expectedType e = t_eff \<and> \<not> is_valid L (actualValue e) t_eff)
                     \<and> (\<forall>r\<in>set rs. \<not> is_valid L (dict_get (row_values r) c) t_eff \<longrightarrow>
                           (\<exists>e\<in>set (errors s2). err_rowId e = rowId r \<and> column e = c
                              \<and> expectedType e = t_eff
                              \<and> actualValue e = dict_get (row_values r) c)))"
        unfolding Let_def t_eff_def [symmetric] dt by blast
    qed
    from stored none objs eff show "overrides s2 c = Some (normalize_type v)
            \<and> (normalize_type v = None \<longrightarrow> overrides s2 c = Some None \<and> c \<in> dom (overrides s2))
            \<and> (\<forall>i<length (column_info s1). name (column_info s1 ! i) = c \<longrightarrow>
                  column_info s2 ! i = (column_info s1 ! i)
                    \<lparr> overrideType := (case normalize_type v of
                                         Some t \<Rightarrow> Some t
                                       | None \<Rightarrow> overrideType (column_info s1 ! i)) \<rparr>)
            \<and> (find (\<lambda>x. name x = c) (rev (column_info s1)) = Some col \<longrightarrow>
                 (let t_eff = (case normalize_type v of
                                 Some t \<Rightarrow> t
                               | None \<Rightarrow> fallback_type (detected_types s1) col)
                  in map_of (detected_types s2) c = Some t_eff
                     \<and> (\<forall>t. (c, t) \<in> set (detected_types s2) \<longrightarrow> t = t_eff)
                     \<and> (\<forall>e\<in>set (errors s2). column e = c \<longrightarrow>
                           expectedType e = t_eff \<and> \<not> is_valid L (actualValue e) t_eff)
                     \<and> (\<forall>r\<in>set rs. \<not> is_valid L (dict_get (row_values r) c) t_eff \<longrightarrow>
                           (\<exists>e\<in>set (errors s2). err_rowId e = rowId r \<and> column e = c
                              \<and> expectedType e = t_eff
                              \<and> actualValue e = dict_get (row_values r) c))))"
      by (intro conjI)
  qed
  have nt: "normalize_type None = None
      \<and> normalize_type (Some x) = (if lower x \<in> ALLOWED_TYPES then Some (lower x) else None)"
    by (simp add: normalize_type_def)
  have top: "overrides s2 = co
       \<and> errors s2 = fst (validate_rows L rs (detected_types s2))
       \<and> duplicate_groups s2 = snd (validate_rows L rs (detected_types s2))
       \<and> payload_errors (snd res) = errors s2
       \<and> duplicateGroups (snd res) = duplicate_groups s2
       \<and> payload_columns (snd res) = column_info s2
       \<and> distinct (map fst (detected_types s2))
       \<and> length (column_info s2) = length (column_info s1)"
    using ov er du pl dist len by (simp add: dt)
  from top tags main nt show ?thesis
    unfolding Let_def s1_def [symmetric] co_def [symmetric] res_def [symmetric] s2_def [symmetric]
    by (intro conjI) (simp_all only: simp_thms)
qed


lemma example_columns:
  "columns (replace_columns example_session None) = [''Age'']
   \<and> detected_types (replace_columns example_session None) = [(''Age'', ''integer'')]
   \<and> find (\<lambda>x. name x = ''Age'') (rev (column_info (replace_columns example_session None)))
        = Some \<lparr> name = ''Age'', detectedType = Some ''integer'', overrideType = None,
                 nullable = True \<rparr>"
  by (simp add: replace_columns_def example_session_def)

lemma example_normalized:
  "normalize_type (Some ''STRING'') = Some ''string'' \<and> normalize_type (Some ''currency'') = None"
  by (simp add: normalize_type_def lower_def isupper_char_def ALLOWED_TYPES_def TYPE_PRIORITY_def)

lemma example_override_applied:
  "errors (fst (revalidate example_lib example_session (rows example_session)
        [''Age'' \<mapsto> Some ''STRING''] None)) = []
   \<and> column_info (fst (revalidate example_lib example_session (rows example_session)
        [''Age'' \<mapsto> Some ''STRING''] None))
      = [\<lparr> name = ''Age'', detectedType = Some ''integer'', overrideType = Some ''string'',
            nullable = True \<rparr>]"
  by (simp add: revalidate_def example_session_def Let_def replace_columns_def
      coerce_overrides_def resolve_column_def py_or_def truthy_def get_default_def
      validate_rows_def is_valid_def ALLOWED_TYPES_def TYPE_PRIORITY_def dict_get_def
      normalize_type_def lower_def isupper_char_def)

lemma example_override_not_applied:
  "map err_rowId (errors (fst (revalidate example_lib example_session (rows example_session)
        [''Age'' \<mapsto> Some ''currency''] None))) = [0, 3]
   \<and> map expectedType (errors (fst (revalidate example_lib example_session (rows example_session)
        [''Age'' \<mapsto> Some ''currency''] None))) = [''integer'', ''integer'']
   \<and> column_info (fst (revalidate example_lib example_session (rows example_session)
        [''Age'' \<mapsto> Some ''currency''] None))
      = [\<lparr> name = ''Age'', detectedType = Some ''integer'', overrideType = None,
            nullable = True \<rparr>]"
  by (simp add: revalidate_def example_session_def Let_def replace_columns_def
      coerce_overrides_def resolve_column_def py_or_def truthy_def get_default_def
      validate_rows_def is_valid_def ALLOWED_TYPES_def TYPE_PRIORITY_def dict_get_def
      strip_def isspace_def startswith_def isdigit_def isdigit_char_def
      normalize_type_def lower_def isupper_char_def)

theorem revalidate_override_normalized_or_fallback_witness:
  "overrides (fst (revalidate example_lib example_session (rows example_session)
        [''Age'' \<mapsto> Some ''STRING''] None)) ''Age'' = Some (Some ''string'')
   \<and> map_of (detected_types (fst (revalidate example_lib example_session (rows example_session)
        [''Age'' \<mapsto> Some ''STRING''] None))) ''Age'' = Some ''string''
   \<and> errors (fst (revalidate example_lib example_session (rows example_session)
        [''Age'' \<mapsto> Some ''STRING''] None)) = []
   \<and> column_info (fst (revalidate example_lib example_session (rows example_session)
        [''Age'' \<mapsto> Some ''STRING''] None))
      = [\<lparr> name = ''Age'', detectedType = Some ''integer'', overrideType = Some ''string'',
            nullable = True \<rparr>]
   \<and> overrides (fst (revalidate example_lib example_session (rows example_session)
        [''Age'' \<mapsto> Some ''currency''] None)) ''Age'' = Some None
   \<and> ''Age'' \<in> dom (overrides (fst (revalidate example_lib example_session (rows example_session)
        [''Age'' \<mapsto> Some ''currency''] None)))
   \<and> map_of (detected_types (fst (revalidate example_lib example_session (rows example_session)
        [''Age'' \<mapsto> Some ''currency''] None))) ''Age'' = Some ''integer''
   \<and> map err_rowId (errors (fst (revalidate example_lib example_session (rows example_session)
        [''Age'' \<mapsto> Some ''currency''] None))) = [0, 3]
   \<and> map expectedType (errors (fst (revalidate example_lib example_session (rows example_session)
        [''Age'' \<mapsto> Some ''currency''] None))) = [''integer'', ''integer'']
   \<and> column_info (fst (revalidate example_lib example_session (rows example_session)
        [''Age'' \<mapsto> Some ''currency''] None))
      = [\<lparr> name = ''Age'', detectedType = Some ''integer'', overrideType = None,
            nullable = True \<rparr>]"
proof -
  let ?col = "\<lparr> name = ''Age'', detectedType = Some ''integer'', overrideType = None,
      nullable = True \<rparr>"
  have fb: "fallback_type (detected_types (replace_columns example_session None)) ?col = ''integer''"
    by (simp add: example_columns fallback_type_def str_or_def get_default_def)
  have f: "find (\<lambda>x. name x = ''Age'') (rev (column_info (replace_columns example_session None)))
      = Some ?col"
    by (simp add: example_columns)
  have h1: "[''Age'' \<mapsto> Some ''STRING''] ''Age'' = Some (Some ''STRING'')
      \<and> ''Age'' \<in> set (columns (replace_columns example_session None))"
    by (simp add: example_columns)
  have h2: "[''Age'' \<mapsto> Some ''currency''] ''Age'' = Some (Some ''currency'')
      \<and> ''Age'' \<in> set (columns (replace_columns example_session None))"
    by (simp add: example_columns)
  have a: "overrides (fst (revalidate example_lib example_session (rows example_session)
        [''Age'' \<mapsto> Some ''STRING''] None)) ''Age'' = Some (normalize_type (Some ''STRING''))
      \<and> map_of (detected_types (fst (revalidate example_lib example_session (rows example_session)
        [''Age'' \<mapsto> Some ''STRING''] None))) ''Age''
          = Some (case normalize_type (Some ''STRING'') of Some t \<Rightarrow> t
                  | None \<Rightarrow> fallback_type (detected_types (replace_columns example_session None)) ?col)"
    using revalidate_override_normalized_or_fallback [of example_session None
        "[''Age'' \<mapsto> Some ''STRING'']" example_lib "rows example_session" "''Age''" "Some ''STRING''"
        ?col "''STRING''"] h1 f
    unfolding Let_def by blast
  have b: "overrides (fst (revalidate example_lib example_session (rows example_session)
        [''Age'' \<mapsto> Some ''currency''] None)) ''Age'' = Some (normalize_type (Some ''currency''))
      \<and> map_of (detected_types (fst (revalidate example_lib example_session (rows example_session)
        [''Age'' \<mapsto> Some ''currency''] None))) ''Age''
          = Some (case normalize_type (Some ''currency'') of Some t \<Rightarrow> t
                  | None \<Rightarrow> fallback_type (detected_types (replace_columns example_session None)) ?col)"
    using revalidate_override_normalized_or_fallback [of example_session None
        "[''Age'' \<mapsto> Some ''currency'']" example_lib "rows example_session" "''Age''" "Some ''currency''"
        ?col "''STRING''"] h2 f
    unfolding Let_def by blast
  have a': "overrides (fst (revalidate example_lib example_session (rows example_session)
        [''Age'' \<mapsto> Some ''STRING''] None)) ''Age'' = Some (Some ''string'')
      \<and> map_of (detected_types (fst (revalidate example_lib example_session (rows example_session)
        [''Age'' \<mapsto> Some ''STRING''] None))) ''Age'' = Some ''string''"
    using a by (simp add: example_normalized)
  have b': "overrides (fst (revalidate example_lib example_session (rows example_session)
        [''Age'' \<mapsto> Some ''currency''] None)) ''Age'' = Some None
      \<and> map_of (detected_types (fst (revalidate example_lib example_session (rows example_session)
        [''Age'' \<mapsto> Some ''currency''] None))) ''Age'' = Some ''integer''"
    using b by (simp add: example_normalized fb)
  have d: "''Age'' \<in> dom (overrides (fst (revalidate example_lib example_session (rows example_session)
        [''Age'' \<mapsto> Some ''currency''] None)))"
    using b' by blast
  from a' b' d example_override_applied example_override_not_applied show ?thesis
    by blast
qed


section \<open>Running the validation again\<close>

lemma assoc_eqI:
  "distinct (map fst xs) \<Longrightarrow> map fst xs = map fst ys \<Longrightarrow> map_of xs = map_of ys \<Longrightarrow> xs = ys"
proof (induction xs arbitrary: ys)
  case Nil
  then show ?case by simp
next
  case (Cons x xs)
  obtain y ys' where ys: "ys = y # ys'"
    using Cons.prems(2) by (cases ys) auto
  have k: "fst y = fst x" and ks: "map fst xs = map fst ys'"
    using Cons.prems(2) ys by simp_all
  have "map_of (x # xs) (fst x) = map_of (y # ys') (fst x)"
    using Cons.prems(3) [unfolded ys] by (rule fun_cong)
  then have v: "snd x = snd y"
    using k by (cases x; cases y) simp
  have notin: "fst x \<notin> fst ` set xs"
    using Cons.prems(1) by simp
  have "map_of xs k = map_of ys' k" for k
  proof (cases "k = fst x")
    case True
    have "map_of xs k = None"
      using notin True by (simp add: map_of_eq_None_iff)
    moreover have "fst x \<notin> fst ` set ys'"
      using notin ks by (metis set_map)
    then have "map_of ys' k = None"
      using True by (simp add: map_of_eq_None_iff)
    ultimately show ?thesis by simp
  next
    case False
    have "map_of (x # xs) k = map_of (y # ys') k"
      using Cons.prems(3) [unfolded ys] by (rule fun_cong)
    then show ?thesis
      using False k by (cases x; cases y) (simp split: if_splits)
  qed
  then have "map_of xs = map_of ys'"
    by (rule ext)
  then have "xs = ys'"
    using Cons.IH Cons.prems(1) ks by simp
  then show ?case
    using ys k v by (cases x; cases y) simp
qed

lemma keys_fold_dict_set:
  "map fst acc = map fst acc' \<Longrightarrow>
   map fst (fold (\<lambda>z d. dict_set d (nm z) (V z)) zs acc) =
   map fst (fold (\<lambda>z d. dict_set d (nm z) (W z)) zs acc')"
proof (induction zs arbitrary: acc acc')
  case Nil
  then show ?case by simp
next
  case (Cons z zs)
  have "map fst (dict_set acc (nm z) (V z)) = map fst (dict_set acc' (nm z) (W z))"
  proof (cases "nm z \<in> fst ` set acc")
    case True
    moreover from True Cons.prems have "nm z \<in> fst ` set acc'"
      by (metis set_map)
    ultimately show ?thesis
      using Cons.prems by (simp add: keys_dict_set_old)
  next
    case False
    moreover from False Cons.prems have "nm z \<notin> fst ` set acc'"
      by (metis set_map)
    ultimately show ?thesis
      using Cons.prems by (simp add: keys_dict_set_new)
  qed
  then show ?case
    by (simp add: Cons.IH)
qed

lemma distinct_fold_dict_set_gen:
  "distinct (map fst acc) \<Longrightarrow> distinct (map fst (fold (\<lambda>z d. dict_set d (nm z) (V z)) zs acc))"
  by (induction zs arbitrary: acc) (simp_all add: distinct_dict_set)

lemma map_of_fold_dict_set_gen:
  "map_of (fold (\<lambda>z d. dict_set d (nm z) (V z)) zs acc) k =
     (case find (\<lambda>z. nm z = k) (rev zs) of Some z \<Rightarrow> Some (V z) | None \<Rightarrow> map_of acc k)"
proof (induction zs arbitrary: acc)
  case Nil
  show ?case by simp
next
  case (Cons z zs)
  show ?case
    by (simp add: Cons.IH map_of_dict_set find_app split: option.splits)
qed

lemma fold_dict_set_cong:
  assumes "\<And>z. find (\<lambda>x. nm x = nm z) (rev zs) = Some z \<Longrightarrow> W z = V z"
  shows "fold (\<lambda>z d. dict_set d (nm z) (W z)) zs [] = fold (\<lambda>z d. dict_set d (nm z) (V z)) zs []"
proof (rule assoc_eqI)
  show "distinct (map fst (fold (\<lambda>z d. dict_set d (nm z) (W z)) zs []))"
    by (rule distinct_fold_dict_set_gen) simp
  show "map fst (fold (\<lambda>z d. dict_set d (nm z) (W z)) zs []) =
      map fst (fold (\<lambda>z d. dict_set d (nm z) (V z)) zs [])"
    by (rule keys_fold_dict_set) simp
  show "map_of (fold (\<lambda>z d. dict_set d (nm z) (W z)) zs []) =
      map_of (fold (\<lambda>z d. dict_set d (nm z) (V z)) zs [])"
  proof (rule ext)
    fix k
    show "map_of (fold (\<lambda>z d. dict_set d (nm z) (W z)) zs []) k =
      map_of (fold (\<lambda>z d. dict_set d (nm z) (V z)) zs []) k"
    proof (cases "find (\<lambda>z. nm z = k) (rev zs)")
      case None
      then show ?thesis by (simp add: map_of_fold_dict_set_gen)
    next
      case (Some z)
      then have "nm z = k"
        by (auto simp: find_Some_iff)
      with Some have "W z = V z"
        using assms [of z] by simp
      with Some show ?thesis by (simp add: map_of_fold_dict_set_gen)
    qed
  qed
qed

lemma replace_columns_none: "cp = None \<or> cp = Some [] \<Longrightarrow> replace_columns s cp = s"
  by (auto simp: replace_columns_def)

lemma replace_columns_some:
  "zs \<noteq> [] \<Longrightarrow> replace_columns s (Some zs) =
     s\<lparr> column_info := map (\<lambda>c. \<lparr> name = name c,
                    detectedType = py_or (detectedType c)
                                     (Some (get_default (detected_types s) (name c) ''string'')),
                    overrideType = overrideType c,
                    nullable = nullable c \<rparr>) zs,
        columns := map name zs \<rparr>"
  by (cases zs) (simp_all add: replace_columns_def Let_def comp_def)

lemma resolve_column_name: "name (fst (resolve_column co dts c)) = name c"
  by (simp add: resolve_column_def Let_def)

lemma resolve_column_again:
  "map_of et (name c) = Some (snd (resolve_column co dts c)) \<Longrightarrow>
   snd (resolve_column co et (fst (resolve_column co dts c))) = snd (resolve_column co dts c)"
  by (auto simp: resolve_column_def py_or_def truthy_def get_default_def Let_def
      split: option.splits if_splits)

lemma resolve_payload_column_again:
  "map_of et (name c) = Some (snd (resolve_column co dts
      \<lparr> name = name c, detectedType = py_or (detectedType c) (Some (get_default dts (name c) ''string'')),
        overrideType = overrideType c, nullable = nullable c \<rparr>)) \<Longrightarrow>
   snd (resolve_column co et
      \<lparr> name = name c, detectedType = py_or (detectedType c) (Some (get_default et (name c) ''string'')),
        overrideType = overrideType c, nullable = nullable c \<rparr>)
   = snd (resolve_column co dts
      \<lparr> name = name c, detectedType = py_or (detectedType c) (Some (get_default dts (name c) ''string'')),
        overrideType = overrideType c, nullable = nullable c \<rparr>)"
  by (auto simp: resolve_column_def py_or_def truthy_def get_default_def Let_def
      split: option.splits if_splits)

lemma revalidate_types:
  "detected_types (fst (revalidate L s rs ovs p)) =
     fold (\<lambda>c d. dict_set d (name c)
            (snd (resolve_column (coerce_overrides (columns (replace_columns s p)) ovs)
                   (detected_types (replace_columns s p)) c)))
       (column_info (replace_columns s p)) []"
  by (simp add: revalidate_session Let_def)

lemma revalidate_columns:
  "columns (fst (revalidate L s rs ovs p)) = columns (replace_columns s p)
   \<and> column_info (fst (revalidate L s rs ovs p)) =
       map (\<lambda>c. fst (resolve_column (coerce_overrides (columns (replace_columns s p)) ovs)
                   (detected_types (replace_columns s p)) c))
         (column_info (replace_columns s p))"
  by (simp add: revalidate_session Let_def)

lemma revalidate_types_fixed:
  "detected_types (fst (revalidate L (fst (revalidate L s rs ovs p)) rs' ovs p)) =
   detected_types (fst (revalidate L s rs ovs p))"
proof (cases "p = None \<or> p = Some []")
  case True
  define co where "co = coerce_overrides (columns s) ovs"
  define V where "V = (\<lambda>c::column_object. snd (resolve_column co (detected_types s) c))"
  define et where "et = fold (\<lambda>c d. dict_set d (name c) (V c)) (column_info s) []"
  define g where "g = (\<lambda>c. fst (resolve_column co (detected_types s) c))"
  define W where "W = (\<lambda>c. snd (resolve_column co et (g c)))"
  have r1: "replace_columns s p = s"
    using True by (rule replace_columns_none)
  have t1: "detected_types (fst (revalidate L s rs ovs p)) = et"
    by (simp add: revalidate_types r1 et_def V_def co_def)
  have c1: "columns (fst (revalidate L s rs ovs p)) = columns s"
    and i1: "column_info (fst (revalidate L s rs ovs p)) = map g (column_info s)"
    by (simp_all add: revalidate_columns r1 g_def co_def)
  have r2: "replace_columns (fst (revalidate L s rs ovs p)) p = fst (revalidate L s rs ovs p)"
    using True by (rule replace_columns_none)
  have "detected_types (fst (revalidate L (fst (revalidate L s rs ovs p)) rs' ovs p)) =
      fold (\<lambda>c d. dict_set d (name c) (snd (resolve_column co et c))) (map g (column_info s)) []"
    by (simp add: revalidate_types [of L "fst (revalidate L s rs ovs p)"] r2 t1 c1 i1 co_def)
  also have "\<dots> = fold (\<lambda>c d. dict_set d (name c) (W c)) (column_info s) []"
    by (simp add: fold_map comp_def g_def W_def resolve_column_name)
  also have "\<dots> = et"
    unfolding et_def
  proof (rule fold_dict_set_cong)
    fix z
    assume "find (\<lambda>x. name x = name z) (rev (column_info s)) = Some z"
    then have "map_of et (name z) = Some (V z)"
      by (simp add: et_def map_of_fold_dict_set_gen)
    then show "W z = V z"
      unfolding W_def V_def g_def by (rule resolve_column_again)
  qed
  finally show ?thesis
    by (simp add: t1)
next
  case False
  then obtain zs where p: "p = Some zs" and ne: "zs \<noteq> []"
    by (cases p) auto
  define co where "co = coerce_overrides (map name zs) ovs"
  define mk where "mk = (\<lambda>dts (c::column_object). \<lparr> name = name c,
      detectedType = py_or (detectedType c) (Some (get_default dts (name c) ''string'')),
      overrideType = overrideType c, nullable = nullable c \<rparr>)"
  define V where "V = (\<lambda>c. snd (resolve_column co (detected_types s) (mk (detected_types s) c)))"
  define et where "et = fold (\<lambda>c d. dict_set d (name c) (V c)) zs []"
  define W where "W = (\<lambda>c. snd (resolve_column co et (mk et c)))"
  have nm: "name (mk dts c) = name c" for dts c
    by (simp add: mk_def)
  have r1: "replace_columns s' p = s'\<lparr> column_info := map (mk (detected_types s')) zs,
      columns := map name zs \<rparr>" for s'
    unfolding p mk_def using ne by (rule replace_columns_some)
  have t1: "detected_types (fst (revalidate L s rs ovs p)) = et"
    by (simp add: revalidate_types r1 et_def V_def co_def fold_map comp_def nm)
  have "detected_types (fst (revalidate L (fst (revalidate L s rs ovs p)) rs' ovs p)) =
      fold (\<lambda>c d. dict_set d (name c) (W c)) zs []"
    by (simp add: revalidate_types [of L "fst (revalidate L s rs ovs p)"] r1 t1 W_def co_def
        fold_map comp_def nm)
  also have "\<dots> = et"
    unfolding et_def
  proof (rule fold_dict_set_cong)
    fix z
    assume "find (\<lambda>x. name x = name z) (rev zs) = Some z"
    then have "map_of et (name z) = Some (V z)"
      by (simp add: et_def map_of_fold_dict_set_gen)
    then show "W z = V z"
      unfolding W_def V_def mk_def by (rule resolve_payload_column_again)
  qed
  finally show ?thesis
    by (simp add: t1)
qed

lemma revalidate_stored:
  "errors (fst (revalidate L s rs ovs p)) =
     fst (validate_rows L rs (detected_types (fst (revalidate L s rs ovs p))))
   \<and> duplicate_groups (fst (revalidate L s rs ovs p)) =
     snd (validate_rows L rs (detected_types (fst (revalidate L s rs ovs p))))
   \<and> rows (fst (revalidate L s rs ovs p)) = rs"
  by (simp add: revalidate_session Let_def)

text \<open>
  C9. \<open>validate_rows\<close> reads its two arguments and nothing else, and \<open>revalidate\<close> is
  where the session runs it: the errors and duplicate groups the session stores are those
  of \<open>validate_rows\<close> on the rows and effective types the session stores with them. A
  second run on the same rows, overrides and column payload arrives at the same effective
  types and so at identical error lists and duplicate groups, in the session and in the
  payload. Two runs on the same rows that arrive at the same effective types yield
  identical error lists and duplicate groups whatever else differs between the sessions,
  the overrides and the column payloads.
\<close>

theorem validate_rows_rerun_identical:
  "(let r1 = revalidate L s rs ovs column_info_payload;
        s2 = fst r1;
        r2 = revalidate L s2 (rows s2) ovs column_info_payload;
        s3 = fst r2
    in rows s2 = rs \<and> rows s3 = rs
       \<and> validate_rows L (rows s2) (detected_types s2) = (errors s2, duplicate_groups s2)
       \<and> validate_rows L (rows s3) (detected_types s3) = (errors s3, duplicate_groups s3)
       \<and> detected_types s3 = detected_types s2
       \<and> errors s3 = errors s2
       \<and> duplicate_groups s3 = duplicate_groups s2
       \<and> payload_errors (snd r2) = payload_errors (snd r1)
       \<and> duplicateGroups (snd r2) = duplicateGroups (snd r1)
       \<and> payload_errors (snd r1) = errors s2
       \<and> duplicateGroups (snd r1) = duplicate_groups s2)
   \<and> (detected_types (fst (revalidate L s rs ovs column_info_payload))
        = detected_types (fst (revalidate L s' rs ovs' column_info_payload')) \<longrightarrow>
      errors (fst (revalidate L s rs ovs column_info_payload))
        = errors (fst (revalidate L s' rs ovs' column_info_payload'))
      \<and> duplicate_groups (fst (revalidate L s rs ovs column_info_payload))
        = duplicate_groups (fst (revalidate L s' rs ovs' column_info_payload'))
      \<and> payload_errors (snd (revalidate L s rs ovs column_info_payload))
        = payload_errors (snd (revalidate L s' rs ovs' column_info_payload'))
      \<and> duplicateGroups (snd (revalidate L s rs ovs column_info_payload))
        = duplicateGroups (snd (revalidate L s' rs ovs' column_info_payload')))"
proof -
  define r1 where "r1 = revalidate L s rs ovs column_info_payload"
  define s2 where "s2 = fst r1"
  define r2 where "r2 = revalidate L s2 (rows s2) ovs column_info_payload"
  define s3 where "s3 = fst r2"
  have st2: "errors s2 = fst (validate_rows L rs (detected_types s2))"
    "duplicate_groups s2 = snd (validate_rows L rs (detected_types s2))" "rows s2 = rs"
    unfolding s2_def r1_def using revalidate_stored [of L s rs ovs column_info_payload]
    by simp_all
  have st3: "errors s3 = fst (validate_rows L rs (detected_types s3))"
    "duplicate_groups s3 = snd (validate_rows L rs (detected_types s3))" "rows s3 = rs"
    unfolding s3_def r2_def st2(3)
    using revalidate_stored [of L s2 rs ovs column_info_payload] by simp_all
  have fx: "detected_types s3 = detected_types s2"
    unfolding s3_def r2_def s2_def r1_def by (rule revalidate_types_fixed)
  have p1: "payload_errors (snd r1) = errors s2" "duplicateGroups (snd r1) = duplicate_groups s2"
    unfolding s2_def r1_def using revalidate_payload [of L s rs ovs column_info_payload]
    by simp_all
  have p2: "payload_errors (snd r2) = errors s3" "duplicateGroups (snd r2) = duplicate_groups s3"
    unfolding s3_def r2_def using revalidate_payload [of L s2 "rows s2" ovs column_info_payload]
    by simp_all
  have a: "rows s2 = rs \<and> rows s3 = rs
       \<and> validate_rows L (rows s2) (detected_types s2) = (errors s2, duplicate_groups s2)
       \<and> validate_rows L (rows s3) (detected_types s3) = (errors s3, duplicate_groups s3)
       \<and> detected_types s3 = detected_types s2
       \<and> errors s3 = errors s2
       \<and> duplicate_groups s3 = duplicate_groups s2
       \<and> payload_errors (snd r2) = payload_errors (snd r1)
       \<and> duplicateGroups (snd r2) = duplicateGroups (snd r1)
       \<and> payload_errors (snd r1) = errors s2
       \<and> duplicateGroups (snd r1) = duplicate_groups s2"
    by (simp add: st2 st3 fx p1 p2)
  have b: "detected_types (fst (revalidate L s rs ovs column_info_payload))
        = detected_types (fst (revalidate L s' rs ovs' column_info_payload')) \<longrightarrow>
      errors (fst (revalidate L s rs ovs column_info_payload))
        = errors (fst (revalidate L s' rs ovs' column_info_payload'))
      \<and> duplicate_groups (fst (revalidate L s rs ovs column_info_payload))
        = duplicate_groups (fst (revalidate L s' rs ovs' column_info_payload'))
      \<and> payload_errors (snd (revalidate L s rs ovs column_info_payload))
        = payload_errors (snd (revalidate L s' rs ovs' column_info_payload'))
      \<and> duplicateGroups (snd (revalidate L s rs ovs column_info_payload))
        = duplicateGroups (snd (revalidate L s' rs ovs' column_info_payload'))"
    using revalidate_stored [of L s rs ovs column_info_payload]
      revalidate_stored [of L s' rs ovs' column_info_payload']
      revalidate_payload [of L s rs ovs column_info_payload]
      revalidate_payload [of L s' rs ovs' column_info_payload']
    by simp
  from a b show ?thesis
    unfolding Let_def r1_def [symmetric] s2_def [symmetric] r2_def [symmetric] s3_def [symmetric]
    by blast
qed

lemma example_types_by_override:
  "detected_types (fst (revalidate example_lib example_session (rows example_session)
        [''Age'' \<mapsto> Some ''STRING''] None)) = [(''Age'', ''string'')]"
  by (simp add: revalidate_types replace_columns_def example_session_def coerce_overrides_def
      resolve_column_def py_or_def truthy_def get_default_def Let_def
      normalize_type_def lower_def isupper_char_def ALLOWED_TYPES_def TYPE_PRIORITY_def)

lemma example_types_by_payload:
  "detected_types (fst (revalidate example_lib example_session (rows example_session) Map.empty
        (Some [\<lparr> name = ''Age'', detectedType = Some ''string'', overrideType = None,
                 nullable = False \<rparr>]))) = [(''Age'', ''string'')]"
  by (simp add: revalidate_types replace_columns_def example_session_def coerce_overrides_def
      resolve_column_def py_or_def truthy_def get_default_def Let_def)

lemma example_first_run:
  "map err_rowId (errors (fst (revalidate example_lib example_session (rows example_session)
        Map.empty None))) = [0, 3]
   \<and> duplicate_groups (fst (revalidate example_lib example_session (rows example_session)
        Map.empty None)) = [[0, 3], [1, 2]]"
  by (simp add: revalidate_def example_session_def Let_def replace_columns_def
      coerce_overrides_def resolve_column_def py_or_def truthy_def get_default_def
      validate_rows_def is_valid_def ALLOWED_TYPES_def TYPE_PRIORITY_def dict_get_def
      strip_def isspace_def startswith_def isdigit_def isdigit_char_def
      identify_duplicates_def row_key_def tuple_eq_def lower_def isupper_char_def)

theorem validate_rows_rerun_identical_witness:
  "detected_types (fst (revalidate example_lib example_session (rows example_session)
        [''Age'' \<mapsto> Some ''STRING''] None)) = [(''Age'', ''string'')]
   \<and> detected_types (fst (revalidate example_lib example_session (rows example_session) Map.empty
        (Some [\<lparr> name = ''Age'', detectedType = Some ''string'', overrideType = None,
                 nullable = False \<rparr>]))) = [(''Age'', ''string'')]
   \<and> errors (fst (revalidate example_lib example_session (rows example_session)
        [''Age'' \<mapsto> Some ''STRING''] None))
      = errors (fst (revalidate example_lib example_session (rows example_session) Map.empty
        (Some [\<lparr> name = ''Age'', detectedType = Some ''string'', overrideType = None,
                 nullable = False \<rparr>])))
   \<and> duplicate_groups (fst (revalidate example_lib example_session (rows example_session)
        [''Age'' \<mapsto> Some ''STRING''] None))
      = duplicate_groups (fst (revalidate example_lib example_session (rows example_session) Map.empty
        (Some [\<lparr> name = ''Age'', detectedType = Some ''string'', overrideType = None,
                 nullable = False \<rparr>])))
   \<and> map err_rowId (errors (fst (revalidate example_lib
        (fst (revalidate example_lib example_session (rows example_session) Map.empty None))
        (rows example_session) Map.empty None))) = [0, 3]
   \<and> duplicate_groups (fst (revalidate example_lib
        (fst (revalidate example_lib example_session (rows example_session) Map.empty None))
        (rows example_session) Map.empty None)) = [[0, 3], [1, 2]]"
proof -
  let ?A = "revalidate example_lib example_session (rows example_session)
        [''Age'' \<mapsto> Some ''STRING''] None"
  let ?B = "revalidate example_lib example_session (rows example_session) Map.empty
        (Some [\<lparr> name = ''Age'', detectedType = Some ''string'', overrideType = None,
                 nullable = False \<rparr>])"
  let ?R = "revalidate example_lib example_session (rows example_session) Map.empty None"
  have h: "detected_types (fst ?A) = detected_types (fst ?B)"
    by (simp only: example_types_by_override example_types_by_payload)
  have two: "errors (fst ?A) = errors (fst ?B) \<and> duplicate_groups (fst ?A) = duplicate_groups (fst ?B)"
    using validate_rows_rerun_identical [of example_lib example_session "rows example_session"
        "[''Age'' \<mapsto> Some ''STRING'']" None example_session Map.empty
        "Some [\<lparr> name = ''Age'', detectedType = Some ''string'', overrideType = None,
                 nullable = False \<rparr>]"] h
    by blast
  have rs: "rows (fst ?R) = rows example_session"
    using revalidate_stored [of example_lib example_session "rows example_session" Map.empty None]
    by simp
  have again: "errors (fst (revalidate example_lib (fst ?R) (rows example_session) Map.empty None))
        = errors (fst ?R)
      \<and> duplicate_groups (fst (revalidate example_lib (fst ?R) (rows example_session) Map.empty None))
        = duplicate_groups (fst ?R)"
    using validate_rows_rerun_identical [of example_lib example_session "rows example_session"
        Map.empty None example_session Map.empty None]
    unfolding Let_def rs by blast
  from two again example_first_run example_types_by_override example_types_by_payload
  show ?thesis
    by simp
qed

end
